theory Spec2Isabelle
  imports Main "HOL-Library.Char_ord" "HOL-Library.List_Lexorder" "HOL-Library.Multiset"
    "HOL-Library.Sublist"
begin

section \<open>Strings\<close>

text \<open>
  JavaScript strings are modelled as \<^typ>\<open>string\<close>: sequences of code units below 256
  (Latin-1). On that range \<open>\s\<close> of a regular expression matches tab, line feed, vertical
  tab, form feed, carriage return, space and the no-break space, and \<open>toLowerCase\<close> adds 32
  to the letters A-Z and to the accented capitals 0xC0-0xDE (0xD7, the multiplication sign,
  apart).
\<close>

definition isSpace :: "char \<Rightarrow> bool" where
  "isSpace c \<longleftrightarrow> c = CHR 0x09 \<or> c = CHR 0x0A \<or> c = CHR 0x0B \<or> c = CHR 0x0C \<or> c = CHR 0x0D
     \<or> c = CHR 0x20 \<or> c = CHR 0xA0"

definition isUpperChar :: "char \<Rightarrow> bool" where
  "isUpperChar c = (let n = (of_char c :: nat) in
     (65 \<le> n \<and> n \<le> 90) \<or> (192 \<le> n \<and> n \<le> 222 \<and> n \<noteq> 215))"

definition toLowerChar :: "char \<Rightarrow> char" where
  "toLowerChar c = (if isUpperChar c then char_of (of_char c + (32::nat)) else c)"

definition toLowerCase :: "string \<Rightarrow> string" where
  "toLowerCase s = map toLowerChar s"

text \<open>\<open>String.prototype.trim\<close>: white space is removed at both ends.\<close>

definition trim :: "string \<Rightarrow> string" where
  "trim s = rev (dropWhile isSpace (rev (dropWhile isSpace s)))"

text \<open>\<open>a.includes(b)\<close>: \<open>b\<close> occurs in \<open>a\<close> as a contiguous substring.\<close>

fun includesStr :: "string \<Rightarrow> string \<Rightarrow> bool" where
  "includesStr [] b = (b = [])"
| "includesStr (c # cs) b = (prefix b (c # cs) \<or> includesStr cs b)"

text \<open>\<open>parts.join(sep)\<close>.\<close>

fun join :: "string \<Rightarrow> string list \<Rightarrow> string" where
  "join sep [] = []"
| "join sep [p] = p"
| "join sep (p # q # ps) = p @ sep @ join sep (q # ps)"

text \<open>
  \<open>s.split(/\s+/)\<close>: the pieces between maximal runs of white space. A run at the start or
  at the end of \<open>s\<close> leaves an empty piece there, and the empty string splits into one
  empty piece.
\<close>

function splitSpaces :: "string \<Rightarrow> string list" where
  "splitSpaces [] = [[]]"
| "splitSpaces (c # cs) =
     (if isSpace c then [] # splitSpaces (dropWhile isSpace cs)
      else (case splitSpaces cs of [] \<Rightarrow> [[c]] | p # ps \<Rightarrow> (c # p) # ps))"
  by pat_completeness auto
termination
  by (relation "measure length") (auto simp: length_dropWhile_le less_Suc_eq_le)

section \<open>Name normalisation (components/dataValidation, \<open>normalizeName\<close>)\<close>

text \<open>
  The tail \<open>\.?\s+\<close> of the four title patterns, matched at the head of a string: an
  optional period, then at least one white space character; the greedy \<open>\s+\<close> takes the
  whole run. The result is what follows the match. When the period is there and no white
  space follows it, giving the period back does not help: a period is not white space.
\<close>

definition matchTitleTail :: "string \<Rightarrow> string option" where
  "matchTitleTail s =
     (let r = (case s of [] \<Rightarrow> [] | c # cs \<Rightarrow> if c = CHR ''.'' then cs else c # cs)
      in case r of [] \<Rightarrow> None
         | c # cs \<Rightarrow> if isSpace c then Some (dropWhile isSpace cs) else None)"

text \<open>\<open>t\.?\s+\<close> matched at the head of \<open>s\<close>, for a literal \<open>t\<close>.\<close>

definition matchTitle :: "string \<Rightarrow> string \<Rightarrow> string option" where
  "matchTitle t s = (if prefix t s then matchTitleTail (drop (length t) s) else None)"

text \<open>\<open>s.replace(/^t\.?\s+/i, '')\<close> on a string that is already in lower case.\<close>

definition stripLeadingTitle :: "string \<Rightarrow> string \<Rightarrow> string" where
  "stripLeadingTitle t s = (case matchTitle t s of None \<Rightarrow> s | Some rest \<Rightarrow> rest)"

text \<open>\<open>\s+t\.?\s+\<close> matched at the head of \<open>s\<close>.\<close>

definition matchInnerTitle :: "string \<Rightarrow> string \<Rightarrow> string option" where
  "matchInnerTitle t s =
     (case s of [] \<Rightarrow> None
      | c # cs \<Rightarrow> if isSpace c then matchTitle t (dropWhile isSpace cs) else None)"

text \<open>
  \<open>s.replace(/\s+t\.?\s+/i, ' ')\<close>: the pattern has no \<open>g\<close> flag, so only the leftmost
  match is replaced by one space; the search tries every position from the left.
\<close>

fun replaceInnerTitle :: "string \<Rightarrow> string \<Rightarrow> string" where
  "replaceInnerTitle t [] = []"
| "replaceInnerTitle t (c # cs) =
     (case matchInnerTitle t (c # cs) of
        Some rest \<Rightarrow> CHR '' '' # rest
      | None \<Rightarrow> c # replaceInnerTitle t cs)"

text \<open>\<open>s.replace(/[.,]/g, '')\<close>.\<close>

definition removePunctuation :: "string \<Rightarrow> string" where
  "removePunctuation s = filter (\<lambda>c. c \<noteq> CHR ''.'' \<and> c \<noteq> CHR '','') s"

text \<open>
  \<open>part.match(/^(jr|sr|[ivx]+|[1-9](?:st|nd|rd|th))$/)\<close>: the part is \<open>jr\<close> or \<open>sr\<close>, or a
  non-empty word over the letters i, v, x, or a digit from 1 to 9 with an ordinal ending.
\<close>

definition isRomanPart :: "string \<Rightarrow> bool" where
  "isRomanPart p \<longleftrightarrow> p \<noteq> [] \<and> list_all (\<lambda>c. c = CHR ''i'' \<or> c = CHR ''v'' \<or> c = CHR ''x'') p"

definition isOrdinalPart :: "string \<Rightarrow> bool" where
  "isOrdinalPart p =
     (case p of
        [d, a, b] \<Rightarrow> (49 \<le> (of_char d :: nat) \<and> (of_char d :: nat) \<le> 57) \<and>
           ([a, b] = ''st'' \<or> [a, b] = ''nd'' \<or> [a, b] = ''rd'' \<or> [a, b] = ''th'')
      | _ \<Rightarrow> False)"

definition isSuffixPart :: "string \<Rightarrow> bool" where
  "isSuffixPart p \<longleftrightarrow> p = ''jr'' \<or> p = ''sr'' \<or> isRomanPart p \<or> isOrdinalPart p"

text \<open>
  The parts of a name before they are joined: lower case, the leading titles and the first
  inner \<open>mrs\<close> and \<open>mr\<close> removed, periods and commas removed, split at white space, empty
  parts and suffix parts dropped, sorted (the default sort of JavaScript compares strings
  by code units, which is the lexicographic order on \<^typ>\<open>string\<close>).
\<close>

definition nameParts :: "string \<Rightarrow> string list" where
  "nameParts name =
     sort (filter (\<lambda>part. \<not> isSuffixPart part)
       (filter (\<lambda>part. length part > 0)
         (splitSpaces
           (removePunctuation
             (replaceInnerTitle ''mr''
               (replaceInnerTitle ''mrs''
                 (stripLeadingTitle ''dr''
                   (stripLeadingTitle ''hon'' (toLowerCase name)))))))))"

definition normalizeName :: "string \<Rightarrow> string" where
  "normalizeName name = join '' '' (nameParts name)"

section \<open>Values and errors\<close>

text \<open>
  What \<open>JSON.parse\<close> returns, and \<open>undefined\<close>. The list of an object holds its own
  properties under distinct keys. Numbers are integers here: the code reads a number only
  for its truthiness.
\<close>

datatype jsvalue =
    JUndefined
  | JNull
  | JBool bool
  | JNumber int
  | JString string
  | JArray "jsvalue list"
  | JObject "(string \<times> jsvalue) list"

text \<open>
  A thrown value: a \<open>TypeError\<close> of the runtime, or an \<open>Error\<close> the code creates, with its
  message.
\<close>

datatype jserror = TypeError | Error string

text \<open>The truthiness of a value, as \<open>!\<close>, \<open>&&\<close> and \<open>if\<close> read it.\<close>

fun truthy :: "jsvalue \<Rightarrow> bool" where
  "truthy JUndefined = False"
| "truthy JNull = False"
| "truthy (JBool b) = b"
| "truthy (JNumber n) = (n \<noteq> 0)"
| "truthy (JString s) = (s \<noteq> [])"
| "truthy (JArray xs) = True"
| "truthy (JObject kvs) = True"

text \<open>
  \<open>v.key\<close> for the keys the code reads (\<open>Filing_Information\<close>, \<open>Name\<close>, \<open>State_District\<close>,
  \<open>Transactions\<close>): reading a property of \<open>undefined\<close> or \<open>null\<close> throws, an object gives
  its property or \<open>undefined\<close>, and a boolean, a number, a string or an array has none of
  these properties.
\<close>

fun getProp :: "jsvalue \<Rightarrow> string \<Rightarrow> jserror + jsvalue" where
  "getProp JUndefined key = Inl TypeError"
| "getProp JNull key = Inl TypeError"
| "getProp (JObject kvs) key = Inr (case map_of kvs key of None \<Rightarrow> JUndefined | Some v \<Rightarrow> v)"
| "getProp v key = Inr JUndefined"

text \<open>
  A call of a string method (\<open>toLowerCase\<close>) on a value: only a string has the method,
  every other receiver throws a \<open>TypeError\<close>.
\<close>

fun asString :: "jsvalue \<Rightarrow> jserror + string" where
  "asString (JString s) = Inr s"
| "asString v = Inl TypeError"

section \<open>Validation (components/dataValidation)\<close>

text \<open>\<open>hasTransactions\<close>, read for its truthiness.\<close>

definition hasTransactions :: "jsvalue \<Rightarrow> bool" where
  "hasTransactions data =
     (truthy data \<and>
      (case getProp data ''Transactions'' of
         Inl e \<Rightarrow> False
       | Inr ts \<Rightarrow> truthy ts \<and> (case ts of JArray xs \<Rightarrow> length xs > 0 | _ \<Rightarrow> False)))"

text \<open>\<open>getTransactionFirstNameAndOffice\<close>: the name and the office of the filing.\<close>

definition getTransactionFirstNameAndOffice :: "jsvalue \<Rightarrow> jserror + (jsvalue \<times> jsvalue)" where
  "getTransactionFirstNameAndOffice data =
     (case getProp data ''Filing_Information'' of
        Inl e \<Rightarrow> Inl e
      | Inr info \<Rightarrow>
          (case getProp info ''Name'' of
             Inl e \<Rightarrow> Inl e
           | Inr name \<Rightarrow>
               (case getProp info ''State_District'' of
                  Inl e \<Rightarrow> Inl e
                | Inr office \<Rightarrow> Inr (name, office))))"

text \<open>
  A reference field that \<open>!\<close> takes for missing: \<open>undefined\<close> (\<open>None\<close>) or the empty
  string.
\<close>

definition missingField :: "string option \<Rightarrow> bool" where
  "missingField f = (case f of None \<Rightarrow> True | Some s \<Rightarrow> s = [])"

text \<open>
  \<open>validateGeneratedOpenAiData\<close>: \<open>Inr ()\<close> when the function returns, \<open>Inl\<close> the error it
  throws (its \<open>catch\<close> logs the error and throws it again). In the test of the fallback the
  operator \<open>&&\<close> binds tighter than \<open>||\<close>, as in the source.
\<close>

definition validateGeneratedOpenAiData ::
  "jsvalue \<Rightarrow> string option \<Rightarrow> string option \<Rightarrow> jserror + unit" where
  "validateGeneratedOpenAiData data nameInWebsite officeInWebsite =
     (if missingField nameInWebsite \<or> missingField officeInWebsite then
        (if \<not> hasTransactions data then Inl (Error ''No transactions found in processed data'')
         else Inr ())
      else
        (case (nameInWebsite, officeInWebsite) of
           (Some websiteName, Some websiteOffice) \<Rightarrow>
             (case getTransactionFirstNameAndOffice data of
                Inl e \<Rightarrow> Inl e
              | Inr (transactionName, transactionOffice) \<Rightarrow>
                  (let normalizedWebsiteName = normalizeName websiteName in
                   case asString transactionName of
                     Inl e \<Rightarrow> Inl e
                   | Inr tn \<Rightarrow>
                       (let normalizedTransactionName = normalizeName tn;
                            nameMatch = (normalizedWebsiteName = normalizedTransactionName) in
                        case asString transactionOffice of
                          Inl e \<Rightarrow> Inl e
                        | Inr toff \<Rightarrow>
                            (let officeMatch =
                                   includesStr (toLowerCase toff) (toLowerCase websiteOffice) in
                             if (\<not> nameMatch \<or> \<not> officeMatch) \<and>
                                \<not> ((officeMatch \<and>
                                      includesStr normalizedWebsiteName normalizedTransactionName)
                                    \<or> includesStr normalizedTransactionName normalizedWebsiteName)
                             then Inl (Error ''Data mismatch between website and filing'')
                             else if \<not> hasTransactions data
                             then Inl (Error ''No transactions found in processed data'')
                             else Inr ()))))
         | _ \<Rightarrow> Inl TypeError))"

section \<open>Reading the assistant's reply (components/dataValidation, lib/openai)\<close>

text \<open>
  \<open>JSON.parse\<close> belongs to the runtime and is a parameter \<open>jsonParse\<close> of the model: the
  parsed value, or \<open>None\<close> where it throws a \<open>SyntaxError\<close>. Given a value that is not a
  string it parses the value's string form, so \<open>JSON.parse(false)\<close> is
  \<open>jsonParse ''false''\<close>.
\<close>

type_synonym parser = "string \<Rightarrow> jsvalue option"

text \<open>
  \<open>findSub pat s\<close>: the leftmost occurrence of \<open>pat\<close> in \<open>s\<close>, as what stands before it and
  what follows it.
\<close>

fun findSub :: "string \<Rightarrow> string \<Rightarrow> (string \<times> string) option" where
  "findSub pat [] = (if pat = [] then Some ([], []) else None)"
| "findSub pat (c # cs) =
     (if prefix pat (c # cs) then Some ([], drop (length pat) (c # cs))
      else (case findSub pat cs of
              None \<Rightarrow> None
            | Some (before, after) \<Rightarrow> Some (c # before, after)))"

definition fence :: string where
  "fence = [CHR 0x60, CHR 0x60, CHR 0x60]"

text \<open>
  The group of the leftmost match of \<open>/```json\s*([\s\S]*?)```/\<close>: after the first
  \<open>```json\<close> and the white space behind it, the text up to the next fence. When the first
  \<open>```json\<close> has no fence behind it, no later one has, and there is no match.
\<close>

definition jsonBlock :: "string \<Rightarrow> string option" where
  "jsonBlock text =
     (case findSub (fence @ ''json'') text of
        None \<Rightarrow> None
      | Some (before, rest) \<Rightarrow>
          (case findSub fence (dropWhile isSpace rest) of
             None \<Rightarrow> None
           | Some (content, after) \<Rightarrow> Some content))"

text \<open>
  The groups of the successive matches of \<open>/```([\s\S]*?)```/g\<close>, as the \<open>exec\<close> loop
  meets them: the text between a fence and the next one, the search going on behind the
  closing fence.
\<close>

function fencedBlocks :: "string \<Rightarrow> string list" where
  "fencedBlocks s =
     (case findSub fence s of
        None \<Rightarrow> []
      | Some (before, rest) \<Rightarrow>
          (case findSub fence rest of
             None \<Rightarrow> []
           | Some (content, after) \<Rightarrow> content # fencedBlocks after))"
  by pat_completeness auto
termination
proof (relation "measure length")
  show "wf (measure length)" by simp
next
  fix s :: string and x2 before rest x2a content after
  assume a: "findSub fence s = Some x2" "(before, rest) = x2"
    "findSub fence rest = Some x2a" "(content, after) = x2a"
  have shorter: "length y \<le> length t - length pat" if "findSub pat t = Some (x, y)"
    for pat t x y
    using that
  proof (induction t arbitrary: x)
    case Nil
    then show ?case by (simp split: if_splits)
  next
    case (Cons c cs)
    show ?case
    proof (cases "prefix pat (c # cs)")
      case True
      with Cons.prems show ?thesis by auto
    next
      case False
      with Cons.prems obtain b where "findSub pat cs = Some (b, y)"
        by (auto split: option.splits)
      from Cons.IH[OF this] show ?thesis by simp
    qed
  qed
  from a(1,2) have "length rest \<le> length s - 3"
    using shorter[of fence s before rest] by (simp add: fence_def)
  moreover from a(3,4) have "length after \<le> length rest - 3"
    using shorter[of fence rest content after] by (simp add: fence_def)
  moreover from a(1,2) have "s \<noteq> []" by (auto simp: fence_def)
  ultimately show "(after, s) \<in> measure length" by (cases s) auto
qed

text \<open>
  The loop over those blocks: a block whose trimmed content starts with \<open>The\<close> or \<open>Given\<close>
  is skipped, and the first content that parses is returned.
\<close>

fun firstJsonBlock :: "parser \<Rightarrow> string list \<Rightarrow> string option" where
  "firstJsonBlock jsonParse [] = None"
| "firstJsonBlock jsonParse (b # bs) =
     (let content = trim b in
      if prefix ''The'' content \<or> prefix ''Given'' content then firstJsonBlock jsonParse bs
      else (case jsonParse content of
              Some v \<Rightarrow> Some content
            | None \<Rightarrow> firstJsonBlock jsonParse bs))"

text \<open>
  \<open>extractStringBetweenBackticks\<close>: the extracted string, or \<open>None\<close> for the \<open>false\<close> it
  returns when it finds no block that parses.
\<close>

definition extractStringBetweenBackticks :: "parser \<Rightarrow> string \<Rightarrow> string option" where
  "extractStringBetweenBackticks jsonParse text =
     (let other = firstJsonBlock jsonParse (fencedBlocks text) in
      case jsonBlock text of
        None \<Rightarrow> other
      | Some block \<Rightarrow>
          (let extracted = trim block in
           case jsonParse extracted of Some v \<Rightarrow> Some extracted | None \<Rightarrow> other))"

text \<open>
  \<open>isJSON\<close>: its first test reads \<open>typeof text\<close>, and the module has no variable \<open>text\<close>
  (the parameter is \<open>obj\<close>); \<open>typeof\<close> of an undeclared name is \<open>"undefined"\<close>.
\<close>

definition typeofText :: string where
  "typeofText = ''undefined''"

definition isJSON :: "parser \<Rightarrow> string \<Rightarrow> bool" where
  "isJSON jsonParse obj =
     (if typeofText \<noteq> ''string'' then False
      else (case jsonParse obj of Some v \<Rightarrow> True | None \<Rightarrow> False))"

text \<open>
  The end of \<open>convertPDFToJSON\<close>, from the reply of the assistant to the value returned
  (its lines 70 to 83): the inner \<open>catch\<close> turns a throw of \<open>JSON.parse\<close> into the error
  of the message below. A reply \<open>isJSON\<close> accepts would be returned as it is, a string.
\<close>

definition replyToData :: "parser \<Rightarrow> string \<Rightarrow> jserror + jsvalue" where
  "replyToData jsonParse data =
     (if \<not> isJSON jsonParse data then
        (case jsonParse (case extractStringBetweenBackticks jsonParse data of
                          None \<Rightarrow> ''false''
                        | Some extracted \<Rightarrow> extracted) of
           None \<Rightarrow> Inl (Error ''OpenAI did not return a JSON object.'')
         | Some v \<Rightarrow> Inr v)
      else Inr (JString data))"

section \<open>The world outside and the state of the process\<close>

text \<open>
  What the code receives from outside is a parameter of the model, a \<open>world\<close>:
  \<^item> \<open>assistantReply n path\<close>: what the calls of the assistant in the \<open>n\<close>-th run of
    \<open>convertPDFToJSON\<close> give for the file at \<open>path\<close>, the text of the reply or the error
    thrown on the way (a missing key, a failed upload, a reply without text);
  \<^item> \<open>jsonParse\<close>: \<open>JSON.parse\<close>;
  \<^item> \<open>httpGetPdf url\<close>: the download of the file, its local path or the error;
  \<^item> \<open>httpPost year\<close>: the answer of the disclosure site;
  \<^item> \<open>queryRows html\<close>: the rows \<open>tbody tr\<close> of the parsed page, \<open>None\<close> where the parser
    throws;
  \<^item> \<open>resolveUrl href\<close>: \<open>new URL(href, "https://disclosures-clerk.house.gov").toString()\<close>,
    \<open>None\<close> where the constructor throws;
  \<^item> \<open>insertOne doc\<close>: the error of the database, if it fails to store the document;
  \<^item> \<open>currentYear\<close>: the year of the clock.
\<close>

datatype httpResult = NetworkFailure jserror | HttpResponse bool string string

record element =
  textContent :: string
  hrefAttribute :: "string option"

record tableRow =
  nameElement :: "element option"
  officeElement :: "element option"
  filingYearElement :: "element option"
  filingTypeElement :: "element option"

record world =
  assistantReply :: "nat \<Rightarrow> string \<Rightarrow> jserror + string"
  jsonParse :: parser
  httpGetPdf :: "string \<Rightarrow> jserror + string"
  httpPost :: "nat \<Rightarrow> httpResult"
  queryRows :: "string \<Rightarrow> tableRow list option"
  resolveUrl :: "string \<Rightarrow> string option"
  insertOne :: "jsvalue \<Rightarrow> jserror option"
  currentYear :: nat

text \<open>
  A filing found on the site (\<open>Transaction\<close> of utils/transaction); the field \<open>id\<close> is the
  string of digits taken from the name of the file.
\<close>

record filing =
  id' :: string
  name :: string
  office :: string
  filingYear :: string
  pdfUrl :: string

text \<open>
  An update given to the callback \<open>transactionUpdate\<close>. The field \<open>time\<close> of the source is
  the time of the clock and is left out.
\<close>

record update =
  status :: string
  message :: string
  updatePdfUrl :: "string option"
  transaction :: "jsvalue option"

text \<open>
  The state: the module variables \<open>oldPDFUrl\<close> (services/checkLastTransaction) and \<open>path\<close>
  (components/pdfProcessing), and the trace of what the process did: how many times
  \<open>convertPDFToJSON\<close> ran, the delays \<open>sleep\<close> was called with, the updates given to the
  callback, and the documents of the collection.
\<close>

record state =
  oldPDFUrl :: "string option"
  path :: "string option"
  conversions :: nat
  slept :: "int list"
  updates :: "update list"
  collection :: "jsvalue list"

section \<open>The Source Fetcher (utils/transaction)\<close>

text \<open>
  \<open>fetchPolititianTransactions\<close>: the text of the response; a failed request and a status
  that is not ok are thrown again by the \<open>catch\<close>. The status is kept as its decimal
  string.
\<close>

definition fetchPolititianTransactions :: "world \<Rightarrow> nat \<Rightarrow> jserror + string" where
  "fetchPolititianTransactions w year =
     (case httpPost w year of
        NetworkFailure e \<Rightarrow> Inl e
      | HttpResponse ok code body \<Rightarrow>
          if \<not> ok then Inl (Error (''HTTP error! status: '' @ code)) else Inr body)"

definition isDigit :: "char \<Rightarrow> bool" where
  "isDigit c \<longleftrightarrow> 48 \<le> (of_char c :: nat) \<and> (of_char c :: nat) \<le> 57"

text \<open>
  The group of \<open>href.match(/\/(\d+)\.pdf$/)\<close>: the string ends with \<open>.pdf\<close>, and the digits
  that stand before it, at least one, follow a slash.
\<close>

definition pdfNumber :: "string \<Rightarrow> string option" where
  "pdfNumber href =
     (if suffix ''.pdf'' href then
        (let stem = take (length href - 4) href;
             digits = rev (takeWhile isDigit (rev stem));
             front = rev (dropWhile isDigit (rev stem))
         in if digits \<noteq> [] \<and> front \<noteq> [] \<and> last front = CHR ''/'' then Some digits else None)
      else None)"

text \<open>
  The body of the \<open>forEach\<close> over the rows: \<open>Inr None\<close> for a row that is skipped,
  \<open>Inr (Some f)\<close> for the filing pushed, \<open>Inl\<close> when the \<open>URL\<close> constructor throws.
\<close>

definition rowToFiling :: "world \<Rightarrow> tableRow \<Rightarrow> jserror + filing option" where
  "rowToFiling w row =
     (case filingTypeElement row of
        None \<Rightarrow> Inr None
      | Some filingType \<Rightarrow>
          if \<not> includesStr (textContent filingType) ''PTR'' then Inr None
          else
            (case (nameElement row, officeElement row, filingYearElement row) of
               (Some nameEl, Some officeEl, Some yearEl) \<Rightarrow>
                 (case hrefAttribute nameEl of
                    None \<Rightarrow> Inr None
                  | Some href \<Rightarrow>
                      if href = [] \<or> \<not> includesStr href ''ptr-pdfs'' then Inr None
                      else
                        (case pdfNumber href of
                           None \<Rightarrow> Inr None
                         | Some ident \<Rightarrow>
                             (let cleanHref = (if prefix ''/'' href then href else ''/'' @ href)
                              in case resolveUrl w cleanHref of
                                   None \<Rightarrow> Inl TypeError
                                 | Some url \<Rightarrow>
                                     Inr (Some \<lparr>id' = ident,
                                                name = trim (textContent nameEl),
                                                office = trim (textContent officeEl),
                                                filingYear = trim (textContent yearEl),
                                                pdfUrl = url\<rparr>))))
             | _ \<Rightarrow> Inr None))"

fun collectRows :: "world \<Rightarrow> tableRow list \<Rightarrow> filing list \<Rightarrow> jserror + filing list" where
  "collectRows w [] results = Inr results"
| "collectRows w (row # rows) results =
     (case rowToFiling w row of
        Inl e \<Rightarrow> Inl e
      | Inr None \<Rightarrow> collectRows w rows results
      | Inr (Some f) \<Rightarrow> collectRows w rows (results @ [f]))"

text \<open>
  The numbers the code computes with are IEEE doubles. All of them are whole here, so a
  finite one is given by its integer value; the others are \<open>NaN\<close> and the two infinities.
\<close>

datatype jsnumber = NaN | Num int | PosInfinity | NegInfinity

text \<open>The number of binary digits of a positive integer.\<close>

function bitLength :: "int \<Rightarrow> nat" where
  "bitLength n = (if n \<le> 0 then 0 else Suc (bitLength (n div 2)))"
  by pat_completeness auto
termination
  by (relation "measure nat") auto

text \<open>
  The double nearest to a non-negative integer \<open>m\<close>, as an integer: \<open>m\<close> itself below
  \<open>2^53\<close>; above, \<open>m\<close> is cut to its 53 leading binary digits, rounded to the nearest, a
  tie going to the even one.
\<close>

definition roundMagnitude :: "int \<Rightarrow> int" where
  "roundMagnitude m =
     (if m < 2 ^ 53 then m
      else (let e = bitLength m - 53;
                q = m div 2 ^ e;
                r = m mod 2 ^ e;
                half = 2 ^ (e - 1)
            in (if half < r \<or> (r = half \<and> odd q) then q + 1 else q) * 2 ^ e))"

text \<open>
  The Number value of an integer: the nearest double, an infinity from \<open>2^1024\<close> on.
\<close>

definition toNumber :: "int \<Rightarrow> jsnumber" where
  "toNumber n =
     (let m = roundMagnitude \<bar>n\<bar> in
      if 2 ^ 1024 \<le> m then (if n < 0 then NegInfinity else PosInfinity)
      else Num (if n < 0 then - m else m))"

text \<open>\<open>a - b\<close> on numbers: the exact difference of two finite values, rounded.\<close>

fun subNumber :: "jsnumber \<Rightarrow> jsnumber \<Rightarrow> jsnumber" where
  "subNumber NaN b = NaN"
| "subNumber a NaN = NaN"
| "subNumber (Num x) (Num y) = toNumber (x - y)"
| "subNumber PosInfinity PosInfinity = NaN"
| "subNumber NegInfinity NegInfinity = NaN"
| "subNumber PosInfinity b = PosInfinity"
| "subNumber NegInfinity b = NegInfinity"
| "subNumber (Num x) PosInfinity = NegInfinity"
| "subNumber (Num x) NegInfinity = PosInfinity"

text \<open>
  \<open>parseInt(s, 10)\<close>: white space and a sign are skipped, then the digits at the head are
  read; the result is \<open>NaN\<close> when there is no digit, and the Number value of the integer
  read otherwise (ECMAScript lets an implementation read the digits after the twentieth
  as zeros; Node reads them all).
\<close>

definition digitsValue :: "string \<Rightarrow> int" where
  "digitsValue ds = foldl (\<lambda>acc c. 10 * acc + (int (of_char c) - 48)) 0 ds"

definition parseInt10 :: "string \<Rightarrow> jsnumber" where
  "parseInt10 s =
     (let t = dropWhile isSpace s;
          (sign, u) = (case t of
                         [] \<Rightarrow> (1, [])
                       | c # cs \<Rightarrow> if c = CHR ''-'' then (- 1, cs)
                                  else if c = CHR ''+'' then (1, cs) else (1, c # cs));
          ds = takeWhile isDigit u
      in if ds = [] then NaN else toNumber (sign * digitsValue ds))"

text \<open>The comparison function of \<open>sortByIdDescending\<close>.\<close>

definition compareIdDescending :: "filing \<Rightarrow> filing \<Rightarrow> jsnumber" where
  "compareIdDescending a b =
     (let idA = parseInt10 (id' a); idB = parseInt10 (id' b) in
      if idA = NaN \<and> idB = NaN then Num 0
      else if idA = NaN then Num 1
      else if idB = NaN then Num (- 1)
      else subNumber idB idA)"

text \<open>
  \<open>Array.prototype.sort\<close> with a comparison function is a stable sort: of two elements the
  second goes first only when the function gives a number above zero for them (\<open>NaN\<close>
  counts as zero). It is modelled as the insertion sort that does so.
\<close>

definition positive :: "jsnumber \<Rightarrow> bool" where
  "positive v = (case v of Num n \<Rightarrow> 0 < n | PosInfinity \<Rightarrow> True | _ \<Rightarrow> False)"

fun insertSorted :: "('a \<Rightarrow> 'a \<Rightarrow> jsnumber) \<Rightarrow> 'a \<Rightarrow> 'a list \<Rightarrow> 'a list" where
  "insertSorted cmp x [] = [x]"
| "insertSorted cmp x (y # ys) =
     (if positive (cmp x y) then y # insertSorted cmp x ys else x # y # ys)"

definition sortWith :: "('a \<Rightarrow> 'a \<Rightarrow> jsnumber) \<Rightarrow> 'a list \<Rightarrow> 'a list" where
  "sortWith cmp xs = foldr (insertSorted cmp) xs []"

definition sortByIdDescending :: "filing list \<Rightarrow> filing list" where
  "sortByIdDescending obj = sortWith compareIdDescending obj"

text \<open>
  \<open>getTransactions\<close>. The fetch is awaited before the \<open>try\<close>, so what it throws leaves the
  function; an empty text, a parser that throws and a \<open>URL\<close> that throws give the empty
  list.
\<close>

definition getTransactions :: "world \<Rightarrow> nat \<Rightarrow> jserror + filing list" where
  "getTransactions w year =
     (case fetchPolititianTransactions w year of
        Inl e \<Rightarrow> Inl e
      | Inr htmlData \<Rightarrow>
          if htmlData = [] then Inr []
          else
            (case queryRows w htmlData of
               None \<Rightarrow> Inr []
             | Some rows \<Rightarrow>
                 (case collectRows w rows [] of
                    Inl e \<Rightarrow> Inr []
                  | Inr results \<Rightarrow> Inr (sortByIdDescending results))))"

text \<open>\<open>getLatestTransaction\<close>: \<open>transactions[0]\<close>, \<open>None\<close> for \<open>undefined\<close>.\<close>

definition getLatestTransaction :: "world \<Rightarrow> nat \<Rightarrow> jserror + filing option" where
  "getLatestTransaction w year =
     (case getTransactions w year of
        Inl e \<Rightarrow> Inl e
      | Inr transactions \<Rightarrow>
          Inr (case transactions of [] \<Rightarrow> None | first # others \<Rightarrow> Some first))"

section \<open>Extraction (lib/openai, utils/pdf, components/pdfProcessing)\<close>

text \<open>
  The outer \<open>catch\<close> of \<open>convertPDFToJSON\<close> wraps what was thrown in a new error, whose
  message ends with the string form of the first one. The messages of the runtime's own
  errors are not modelled.
\<close>

fun showError :: "jserror \<Rightarrow> string" where
  "showError (Error m) = ''Error: '' @ m"
| "showError TypeError = ''TypeError''"

definition conversionError :: "jserror \<Rightarrow> jserror" where
  "conversionError e = Error (''Error with openAI conversion: '' @ showError e)"

text \<open>\<open>convertPDFToJSON\<close>: one extraction attempt, counted in the state.\<close>

definition convertPDFToJSON :: "world \<Rightarrow> string \<Rightarrow> state \<Rightarrow> (jserror + jsvalue) \<times> state" where
  "convertPDFToJSON w filePath s =
     (let s' = s\<lparr>conversions := conversions s + 1\<rparr> in
      case assistantReply w (conversions s) filePath of
        Inl e \<Rightarrow> (Inl (conversionError e), s')
      | Inr data \<Rightarrow>
          (case replyToData (jsonParse w) data of
             Inl e \<Rightarrow> (Inl (conversionError e), s')
           | Inr v \<Rightarrow> (Inr v, s')))"

text \<open>\<open>downloadPDF\<close>: the path of the saved file; every failure is thrown again.\<close>

definition downloadPDF :: "world \<Rightarrow> string \<Rightarrow> jserror + string" where
  "downloadPDF w url =
     (if url = [] then Inl (Error ''No URL provided for PDF download'') else httpGetPdf w url)"

text \<open>
  \<open>processPDFTransactionData\<close> of components/pdfProcessing: it reads the fields \<open>pdfUrl\<close>,
  \<open>name\<close> and \<open>office\<close> of its argument. \<open>None\<close> is the \<open>null\<close> of its \<open>catch\<close>.
  \<open>cleanupPDF\<close> catches its own errors and leaves the state of the model as it is.
\<close>

definition processPDFTransactionData :: "world \<Rightarrow> filing \<Rightarrow> state \<Rightarrow> jsvalue option \<times> state" where
  "processPDFTransactionData w transactionData s =
     (case downloadPDF w (pdfUrl transactionData) of
        Inl e \<Rightarrow> (None, s)
      | Inr p \<Rightarrow>
          (case convertPDFToJSON w p (s\<lparr>path := Some p\<rparr>) of
             (Inl e, s1) \<Rightarrow> (None, s1)
           | (Inr data, s1) \<Rightarrow>
               (case validateGeneratedOpenAiData data
                       (Some (name transactionData)) (Some (office transactionData)) of
                  Inl e \<Rightarrow> (None, s1)
                | Inr done \<Rightarrow> (Some data, s1))))"

text \<open>The delays of utils/config, in milliseconds.\<close>

definition SECOND :: int where
  "SECOND = 1000"

definition MINUTE :: int where
  "MINUTE = 60 * SECOND"

definition HOUR :: int where
  "HOUR = 60 * MINUTE"

definition retryDelays :: "int list" where
  "retryDelays = [0, 3 * MINUTE, 7 * MINUTE, 30 * MINUTE, 8 * HOUR]"

text \<open>
  The loop of \<open>retryProcessPDFData\<close>, from the value \<open>attempt\<close> of its counter: an attempt
  that succeeds returns the data; one that fails is followed by the sleep of
  \<open>retryDelays[attempt]\<close> and the next attempt, the last one by the \<open>break\<close>.
\<close>

function retryLoop :: "world \<Rightarrow> string \<Rightarrow> nat \<Rightarrow> state \<Rightarrow> jsvalue option \<times> state" where
  "retryLoop w p attempt s =
     (if attempt < length retryDelays then
        (case convertPDFToJSON w p s of
           (Inr data, s1) \<Rightarrow> (Some data, s1)
         | (Inl e, s1) \<Rightarrow>
             if attempt = length retryDelays - 1 then (None, s1)
             else retryLoop w p (attempt + 1) (s1\<lparr>slept := slept s1 @ [retryDelays ! attempt]\<rparr>))
      else (None, s))"
  by pat_completeness auto
termination
  by (relation "measure (\<lambda>(w, p, attempt, s). length retryDelays - attempt)") auto

definition retryProcessPDFData :: "world \<Rightarrow> string \<Rightarrow> state \<Rightarrow> jsvalue option \<times> state" where
  "retryProcessPDFData w p s = retryLoop w p 0 s"

section \<open>Persistence (db/db)\<close>

text \<open>
  \<open>storeTransactionDataInDatabase\<close>: the document is added to the collection, or the error
  of the database is thrown again.
\<close>

definition storeTransactionDataInDatabase :: "world \<Rightarrow> jsvalue \<Rightarrow> state \<Rightarrow> (jserror + unit) \<times> state" where
  "storeTransactionDataInDatabase w transactionData s =
     (case insertOne w transactionData of
        Some e \<Rightarrow> (Inl e, s)
      | None \<Rightarrow> (Inr (), s\<lparr>collection := collection s @ [transactionData]\<rparr>))"

section \<open>The Monitor Loop (services/checkLastTransaction)\<close>

definition finishedUpdate :: update where
  "finishedUpdate =
     \<lparr>status = ''finished checking'', message = ''No new filings found.'',
      updatePdfUrl = None, transaction = None\<rparr>"

definition errorUpdate :: update where
  "errorUpdate =
     \<lparr>status = ''error'',
      message = ''Error processing filing data correctly after multiple attempts.'',
      updatePdfUrl = None, transaction = None\<rparr>"

definition alertUpdate :: "string \<Rightarrow> jsvalue \<Rightarrow> update" where
  "alertUpdate newPDFUrl detailedTransactionData =
     \<lparr>status = ''alert'', message = ''New filing data found!'',
      updatePdfUrl = Some newPDFUrl, transaction = Some detailedTransactionData\<rparr>"

text \<open>
  \<open>checkAndUpdateLatestTransactionData\<close>, one cycle: \<open>Inr ()\<close> when it returns, \<open>Inl\<close> the
  error it throws. The module imports \<open>storeTransactionDataInDatabase\<close> and has no call
  of it.
\<close>

definition checkAndUpdateLatestTransactionData :: "world \<Rightarrow> state \<Rightarrow> (jserror + unit) \<times> state" where
  "checkAndUpdateLatestTransactionData w s =
     (case getLatestTransaction w (currentYear w) of
        Inl e \<Rightarrow> (Inl e, s)
      | Inr None \<Rightarrow> (Inr (), s)
      | Inr (Some latestTransactionData) \<Rightarrow>
          (let newPDFUrl = pdfUrl latestTransactionData in
           if oldPDFUrl s = Some newPDFUrl then
             (Inr (), s\<lparr>updates := updates s @ [finishedUpdate]\<rparr>)
           else
             (case processPDFTransactionData w latestTransactionData s of
                (None, s1) \<Rightarrow>
                  (Inl (Error ''After multiple attempts, could not process filing data.''),
                   s1\<lparr>updates := updates s1 @ [errorUpdate]\<rparr>)
              | (Some detailedTransactionData, s1) \<Rightarrow>
                  (Inr (),
                   s1\<lparr>updates := updates s1 @ [alertUpdate newPDFUrl detailedTransactionData],
                      oldPDFUrl := Some newPDFUrl\<rparr>))))"

section \<open>The Event Broadcaster (routes/transactionDataSSE)\<close>

text \<open>
  The response of a subscriber: the chunks written to it, and how many more writes it
  takes before \<open>write\<close> throws (\<open>None\<close>: it never throws).
\<close>

record response =
  remainingWrites :: "nat option"
  written :: "string list"

definition writeChunk :: "response \<Rightarrow> string \<Rightarrow> jserror + response" where
  "writeChunk r chunk =
     (case remainingWrites r of
        None \<Rightarrow> Inr (r\<lparr>written := written r @ [chunk]\<rparr>)
      | Some 0 \<Rightarrow> Inl (Error ''write after end'')
      | Some (Suc n) \<Rightarrow> Inr (r\<lparr>remainingWrites := Some n, written := written r @ [chunk]\<rparr>))"

text \<open>
  The set \<open>clients\<close>, in the order of insertion: each client under the handle that stands
  for its identity, with its response.
\<close>

type_synonym clients = "(nat \<times> response) list"

definition clientsDelete :: "nat \<Rightarrow> clients \<Rightarrow> clients" where
  "clientsDelete h cs = filter (\<lambda>(k, r). k \<noteq> h) cs"

definition clientsPut :: "nat \<Rightarrow> response \<Rightarrow> clients \<Rightarrow> clients" where
  "clientsPut h r cs = map (\<lambda>(k, r0). if k = h then (k, r) else (k, r0)) cs"

text \<open>\<open>forEach\<close>: an error thrown by the callback ends the loop and leaves it.\<close>

fun forEach :: "('a \<Rightarrow> 's \<Rightarrow> jserror + 's) \<Rightarrow> 'a list \<Rightarrow> 's \<Rightarrow> jserror + 's" where
  "forEach f [] s = Inr s"
| "forEach f (x # xs) s = (case f x s of Inl e \<Rightarrow> Inl e | Inr s' \<Rightarrow> forEach f xs s')"

text \<open>
  The callback of \<open>sendSSEUpdate\<close> for the client \<open>h\<close>: the two writes in the \<open>try\<close>, and
  the \<open>catch\<close> that deletes the client. \<open>payload\<close> is \<open>JSON.stringify(data)\<close>.
\<close>

definition sendToClient :: "string \<Rightarrow> string \<Rightarrow> nat \<Rightarrow> clients \<Rightarrow> jserror + clients" where
  "sendToClient payload eventType h cs =
     (case map_of cs h of
        None \<Rightarrow> Inr cs
      | Some r \<Rightarrow>
          (case writeChunk r (''event: '' @ eventType @ [CHR 0x0A]) of
             Inl e \<Rightarrow> Inr (clientsDelete h cs)
           | Inr r1 \<Rightarrow>
               (case writeChunk r1 (''data: '' @ payload @ [CHR 0x0A, CHR 0x0A]) of
                  Inl e \<Rightarrow> Inr (clientsDelete h cs)
                | Inr r2 \<Rightarrow> Inr (clientsPut h r2 cs))))"

definition sendSSEUpdate :: "string \<Rightarrow> string \<Rightarrow> clients \<Rightarrow> jserror + clients" where
  "sendSSEUpdate payload eventType cs = forEach (sendToClient payload eventType) (map fst cs) cs"

section \<open>Vocabulary of the statements\<close>

text \<open>
  The titles the normalisation looks for, as parts of a normalised name; and a token of a
  written name: a non-empty string without white space.
\<close>

definition isTitleWord :: "string \<Rightarrow> bool" where
  "isTitleWord p \<longleftrightarrow> p = ''hon'' \<or> p = ''dr'' \<or> p = ''mrs'' \<or> p = ''mr''"

definition plainToken :: "string \<Rightarrow> bool" where
  "plainToken t \<longleftrightarrow> t \<noteq> [] \<and> list_all (\<lambda>c. \<not> isSpace c) t"




text \<open>
  A response takes both writes of a broadcast when it never throws or has at least two
  writes left; \<open>afterBoth\<close> is the response once the two chunks are written.
\<close>

definition takesBoth :: "response \<Rightarrow> bool" where
  "takesBoth r = (case remainingWrites r of None \<Rightarrow> True | Some n \<Rightarrow> 2 \<le> n)"

definition afterBoth :: "string \<Rightarrow> string \<Rightarrow> response \<Rightarrow> response" where
  "afterBoth payload eventType r =
     r\<lparr>remainingWrites := map_option (\<lambda>n. n - 2) (remainingWrites r),
       written := written r @ [''event: '' @ eventType @ [CHR 0x0A],
                               ''data: '' @ payload @ [CHR 0x0A, CHR 0x0A]]\<rparr>"

section \<open>Example inputs\<close>

text \<open>
  The inputs of the closed examples below: a filing as the site lists it, the row of the
  page it comes from, the record the assistant extracts from its document, and the reply
  that carries the record in a fenced block.
\<close>

definition exampleData :: "string \<Rightarrow> string \<Rightarrow> jsvalue" where
  "exampleData filer district =
     JObject [(''Filing_Information'',
               JObject [(''Name'', JString filer), (''Status'', JString ''Filed''),
                        (''State_District'', JString district)]),
              (''Transactions'',
               JArray [JObject [(''ID_Owner'', JString ''Self''),
                                (''Asset'', JString ''Company Stock''),
                                (''Transaction_Type'', JString ''Purchase''),
                                (''Date'', JString ''2023-01-01''),
                                (''Amount'', JString ''$1,001 - $15,000'')]])]"

definition exampleJson :: string where
  \<open>exampleJson = ''{"Filing_Information":{"Name":"John Smith","Status":"Filed","State_District":"TX01"},"Transactions":[{"ID_Owner":"Self","Asset":"Company Stock","Transaction_Type":"Purchase","Date":"2023-01-01","Amount":"$1,001 - $15,000"}]}''\<close>

definition exampleReply :: string where
  "exampleReply = fence @ ''json'' @ [CHR 0x0A] @ exampleJson @ [CHR 0x0A] @ fence"

text \<open>
  A parser for the examples: it knows the text of the record above and the literal
  \<open>false\<close>, and rejects every other text. The examples give it no other text that is
  JSON.
\<close>

definition exampleParse :: parser where
  "exampleParse s =
     (if s = ''false'' then Some (JBool False)
      else if s = exampleJson then Some (exampleData ''John Smith'' ''TX01'')
      else None)"

definition exampleFiling :: filing where
  "exampleFiling =
     \<lparr>id' = ''20024542'', name = ''John Smith'', office = ''TX01'', filingYear = ''2024'',
      pdfUrl = ''https://disclosures-clerk.house.gov/public_disc/ptr-pdfs/2024/20024542.pdf''\<rparr>"

definition exampleRow :: "string \<Rightarrow> string \<Rightarrow> tableRow" where
  "exampleRow filer href =
     \<lparr>nameElement = Some \<lparr>textContent = filer, hrefAttribute = Some href\<rparr>,
      officeElement = Some \<lparr>textContent = ''TX01'', hrefAttribute = None\<rparr>,
      filingYearElement = Some \<lparr>textContent = ''2024'', hrefAttribute = None\<rparr>,
      filingTypeElement = Some \<lparr>textContent = ''PTR Original'', hrefAttribute = None\<rparr>\<rparr>"

text \<open>
  A world in which the site lists the example filing, the download succeeds and the
  database stores; the assistant and the site's answer are left open.
\<close>

definition exampleWorld :: "(nat \<Rightarrow> string \<Rightarrow> jserror + string) \<Rightarrow> httpResult \<Rightarrow> world" where
  "exampleWorld reply answer =
     \<lparr>assistantReply = reply,
      jsonParse = exampleParse,
      httpGetPdf = (\<lambda>url. Inr ''pdfs/20024542.pdf''),
      httpPost = (\<lambda>year. answer),
      queryRows = (\<lambda>html. Some [exampleRow ''John Smith'' ''public_disc/ptr-pdfs/2024/20024542.pdf'']),
      resolveUrl = (\<lambda>href. Some (''https://disclosures-clerk.house.gov'' @ href)),
      insertOne = (\<lambda>doc. None),
      currentYear = 2024\<rparr>"

definition pageAnswer :: httpResult where
  "pageAnswer = HttpResponse True ''200'' ''<table><tbody><tr></tr></tbody></table>''"

text \<open>The state at the start of the process: both module variables are \<open>null\<close>.\<close>

definition initialState :: state where
  "initialState =
     \<lparr>oldPDFUrl = None, path = None, conversions = 0, slept = [], updates = [],
      collection = []\<rparr>"

text \<open>
  Three worlds over the example filing: the assistant fails at every call, it answers
  with the fenced record, it answers with a sentence that holds no JSON.
\<close>

definition failingWorld :: world where
  "failingWorld = exampleWorld (\<lambda>n p. Inl (Error ''OpenAI request timed out'')) pageAnswer"

definition acceptingWorld :: world where
  "acceptingWorld = exampleWorld (\<lambda>n p. Inr exampleReply) pageAnswer"

definition proseWorld :: world where
  "proseWorld = exampleWorld (\<lambda>n p. Inr ''I could not read the document.'') pageAnswer"

definition examplePath :: string where
  "examplePath = ''pdfs/20024542.pdf''"

text \<open>A subscriber whose response takes every write, and one whose response is closed.\<close>

definition openResponse :: response where
  "openResponse = \<lparr>remainingWrites = None, written = []\<rparr>"

definition closedResponse :: response where
  "closedResponse = \<lparr>remainingWrites = Some 0, written = []\<rparr>"








section \<open>Properties of the name normalisation\<close>

lemma nameParts_not_suffix: "part \<in> set (nameParts x) \<Longrightarrow> \<not> isSuffixPart part"
  by (simp add: nameParts_def)

text \<open>
  Claim C10. The normalisation keeps no part that is a word over the letters i, v, x: such
  a part is dropped with the generational suffixes, so the middle initials I., V. and X.
  disappear; \<open>John V. Smith\<close> and \<open>John Smith\<close> have the same normal form, and the
  validation takes a filing under the one name for the reference of the other.
\<close>

theorem normalizeName_drops_ivx_initials:
  "filter isRomanPart (nameParts x) = [] \<and>
   normalizeName ''John V. Smith'' = normalizeName ''John Smith'' \<and>
   normalizeName ''John I. Smith'' = normalizeName ''John Smith'' \<and>
   normalizeName ''John X. Smith'' = normalizeName ''John Smith'' \<and>
   normalizeName ''John Smith'' = ''john smith'' \<and>
   validateGeneratedOpenAiData
     (JObject [(''Filing_Information'',
                JObject [(''Name'', JString ''John Smith''), (''Status'', JString ''Filed''),
                         (''State_District'', JString ''CA05'')]),
               (''Transactions'', JArray [JObject [(''Asset'', JString ''Stock'')]])])
     (Some ''John V. Smith'') (Some ''CA05'') = Inr ()"
proof -
  have "filter isRomanPart (nameParts x) = []"
    by (auto simp: filter_empty_conv isSuffixPart_def dest: nameParts_not_suffix)
  moreover have "normalizeName ''John V. Smith'' = ''john smith''" by code_simp
  moreover have "normalizeName ''John I. Smith'' = ''john smith''" by code_simp
  moreover have "normalizeName ''John X. Smith'' = ''john smith''" by code_simp
  moreover have "normalizeName ''John Smith'' = ''john smith''" by code_simp
  moreover have "validateGeneratedOpenAiData
     (JObject [(''Filing_Information'',
                JObject [(''Name'', JString ''John Smith''), (''Status'', JString ''Filed''),
                         (''State_District'', JString ''CA05'')]),
               (''Transactions'', JArray [JObject [(''Asset'', JString ''Stock'')]])])
     (Some ''John V. Smith'') (Some ''CA05'') = Inr ()" by code_simp
  ultimately show ?thesis by simp
qed

theorem normalizeName_drops_ivx_initials_witness:
  "filter isRomanPart (nameParts ''John V. Smith'') = [] \<and>
   nameParts ''John V. Smith'' = [''john'', ''smith'']"
proof -
  have "nameParts ''John V. Smith'' = [''john'', ''smith'']" by code_simp
  with normalizeName_drops_ivx_initials[of "''John V. Smith''"] show ?thesis by simp
qed

section \<open>Properties of the validation\<close>

text \<open>
  Claim C7. A record without transactions (its \<open>Transactions\<close> is missing, is no array
  or is the empty array) is rejected: the validation throws, whatever the name and the
  office are, and whether the reference fields are there or not.
\<close>

theorem validation_rejects_without_transactions:
  "\<not> hasTransactions d \<Longrightarrow> \<exists>e. validateGeneratedOpenAiData d n off = Inl e"
  by (auto simp: validateGeneratedOpenAiData_def Let_def
           split: option.splits sum.splits prod.splits)

theorem validation_rejects_without_transactions_witness:
  "\<not> hasTransactions (JObject [(''Filing_Information'',
        JObject [(''Name'', JString ''John Smith''), (''State_District'', JString ''TX01'')]),
        (''Transactions'', JArray [])]) \<and>
   (\<exists>e. validateGeneratedOpenAiData (JObject [(''Filing_Information'',
        JObject [(''Name'', JString ''John Smith''), (''State_District'', JString ''TX01'')]),
        (''Transactions'', JArray [])]) (Some ''John Smith'') (Some ''TX01'') = Inl e)"
proof -
  have h: "\<not> hasTransactions (JObject [(''Filing_Information'',
        JObject [(''Name'', JString ''John Smith''), (''State_District'', JString ''TX01'')]),
        (''Transactions'', JArray [])])"
    by (simp add: hasTransactions_def)
  from validation_rejects_without_transactions[OF h] h show ?thesis by blast
qed

text \<open>
  Claim C4. The fallback is tested as \<open>(officeMatch && a) || b\<close>: when the normalised
  name of the filing contains the normalised reference name, as it does when the two are
  equal, the record passes whatever the office is. So a record whose name matches and
  whose office does not is accepted, where the comment of the source and the claim have it
  rejected.
\<close>

theorem validation_accepts_office_mismatch:
  assumes "getTransactionFirstNameAndOffice d = Inr (JString tn, JString toff)"
    and "hasTransactions d" and "wn \<noteq> []" and "wo \<noteq> []"
    and "includesStr (normalizeName tn) (normalizeName wn)"
  shows "validateGeneratedOpenAiData d (Some wn) (Some wo) = Inr ()"
  using assms by (simp add: validateGeneratedOpenAiData_def missingField_def Let_def)

theorem validation_accepts_office_mismatch_witness:
  "\<not> includesStr (toLowerCase ''TX01'') (toLowerCase ''CA05'') \<and>
   normalizeName ''John Smith'' = normalizeName ''John Smith'' \<and>
   validateGeneratedOpenAiData (exampleData ''John Smith'' ''TX01'')
     (Some ''John Smith'') (Some ''CA05'') = Inr ()"
proof -
  have 1: "getTransactionFirstNameAndOffice (exampleData ''John Smith'' ''TX01'')
             = Inr (JString ''John Smith'', JString ''TX01'')"
    by (simp add: getTransactionFirstNameAndOffice_def exampleData_def)
  have 2: "hasTransactions (exampleData ''John Smith'' ''TX01'')"
    by (simp add: hasTransactions_def exampleData_def)
  have 3: "includesStr (normalizeName ''John Smith'') (normalizeName ''John Smith'')"
    by code_simp
  have 4: "\<not> includesStr (toLowerCase ''TX01'') (toLowerCase ''CA05'')"
    by code_simp
  from validation_accepts_office_mismatch[where wn="''John Smith''" and wo="''CA05''", OF 1 2 _ _ 3] 4
  show ?thesis by simp
qed

section \<open>Properties of the extraction and of the Monitor Loop\<close>

declare retryLoop.simps [simp del]

lemma convertPDFToJSON_state:
  "snd (convertPDFToJSON w p s) = s\<lparr>conversions := conversions s + 1\<rparr>"
  by (simp add: convertPDFToJSON_def Let_def split: sum.splits)

lemma convertPDFToJSON_fails:
  assumes "isl (fst (convertPDFToJSON w p s))"
  obtains e where "convertPDFToJSON w p s = (Inl e, s\<lparr>conversions := conversions s + 1\<rparr>)"
proof -
  obtain r s' where rs: "convertPDFToJSON w p s = (r, s')" by (cases "convertPDFToJSON w p s")
  with convertPDFToJSON_state[of w p s] have "s' = s\<lparr>conversions := conversions s + 1\<rparr>" by simp
  moreover from assms rs obtain e where "r = Inl e" by (cases r) auto
  ultimately show ?thesis using rs that by simp
qed

lemma retryLoop_step:
  assumes "isl (fst (convertPDFToJSON w p s))" and "attempt < 4"
  shows "retryLoop w p attempt s =
           retryLoop w p (attempt + 1)
             (s\<lparr>conversions := conversions s + 1, slept := slept s @ [retryDelays ! attempt]\<rparr>)"
proof -
  from assms(1) obtain e where
    "convertPDFToJSON w p s = (Inl e, s\<lparr>conversions := conversions s + 1\<rparr>)"
    by (rule convertPDFToJSON_fails)
  with assms(2) show ?thesis
    by (subst retryLoop.simps) (simp add: retryDelays_def)
qed

lemma retryLoop_last:
  assumes "isl (fst (convertPDFToJSON w p s))"
  shows "retryLoop w p 4 s = (None, s\<lparr>conversions := conversions s + 1\<rparr>)"
proof -
  from assms(1) obtain e where
    "convertPDFToJSON w p s = (Inl e, s\<lparr>conversions := conversions s + 1\<rparr>)"
    by (rule convertPDFToJSON_fails)
  then show ?thesis
    by (subst retryLoop.simps) (simp add: retryDelays_def)
qed

lemma retry_all_fail:
  assumes fails: "\<And>s'. isl (fst (convertPDFToJSON w p s'))"
  shows "retryProcessPDFData w p s =
           (None, s\<lparr>conversions := conversions s + 5,
                     slept := slept s @ [0, 180000, 420000, 1800000]\<rparr>)"
proof -
  let ?s1 = "s\<lparr>conversions := conversions s + 1, slept := slept s @ [0]\<rparr>"
  let ?s2 = "s\<lparr>conversions := conversions s + 2, slept := slept s @ [0, 180000]\<rparr>"
  let ?s3 = "s\<lparr>conversions := conversions s + 3, slept := slept s @ [0, 180000, 420000]\<rparr>"
  let ?s4 = "s\<lparr>conversions := conversions s + 4,
                 slept := slept s @ [0, 180000, 420000, 1800000]\<rparr>"
  have "retryLoop w p 0 s = retryLoop w p 1 ?s1"
    using retryLoop_step[OF fails, of 0 s] by (simp add: retryDelays_def)
  also have "\<dots> = retryLoop w p 2 ?s2"
    using retryLoop_step[OF fails, of 1 ?s1]
    by (simp add: retryDelays_def MINUTE_def SECOND_def eval_nat_numeral)
  also have "\<dots> = retryLoop w p 3 ?s3"
    using retryLoop_step[OF fails, of 2 ?s2]
    by (simp add: retryDelays_def MINUTE_def SECOND_def eval_nat_numeral)
  also have "\<dots> = retryLoop w p 4 ?s4"
    using retryLoop_step[OF fails, of 3 ?s3]
    by (simp add: retryDelays_def MINUTE_def SECOND_def eval_nat_numeral)
  also have "\<dots> = (None, s\<lparr>conversions := conversions s + 5,
                            slept := slept s @ [0, 180000, 420000, 1800000]\<rparr>)"
    using retryLoop_last[OF fails, of ?s4] by (simp add: eval_nat_numeral)
  finally show ?thesis by (simp add: retryProcessPDFData_def)
qed

lemma cycle_processing_failed:
  assumes "getLatestTransaction w (currentYear w) = Inr (Some d)"
    and "oldPDFUrl s \<noteq> Some (pdfUrl d)"
    and "processPDFTransactionData w d s = (None, s1)"
  shows "checkAndUpdateLatestTransactionData w s =
           (Inl (Error ''After multiple attempts, could not process filing data.''),
            s1\<lparr>updates := updates s1 @ [errorUpdate]\<rparr>)"
  using assms by (simp add: checkAndUpdateLatestTransactionData_def)

lemma cycle_processing_accepted:
  assumes "getLatestTransaction w (currentYear w) = Inr (Some d)"
    and "oldPDFUrl s \<noteq> Some (pdfUrl d)"
    and "processPDFTransactionData w d s = (Some v, s1)"
  shows "checkAndUpdateLatestTransactionData w s =
           (Inr (), s1\<lparr>updates := updates s1 @ [alertUpdate (pdfUrl d) v],
                       oldPDFUrl := Some (pdfUrl d)\<rparr>)"
  using assms by (simp add: checkAndUpdateLatestTransactionData_def Let_def)

lemma processPDFTransactionData_state:
  assumes "processPDFTransactionData w d s = (r, s1)"
  shows "s1 = s \<or> (\<exists>p. s1 = s\<lparr>path := Some p, conversions := conversions s + 1\<rparr>)"
proof (cases "downloadPDF w (pdfUrl d)")
  case (Inl e)
  with assms show ?thesis by (simp add: processPDFTransactionData_def)
next
  case (Inr p)
  have "snd (convertPDFToJSON w p (s\<lparr>path := Some p\<rparr>))
          = s\<lparr>path := Some p, conversions := conversions s + 1\<rparr>"
    by (simp add: convertPDFToJSON_state)
  with assms Inr have "s1 = s\<lparr>path := Some p, conversions := conversions s + 1\<rparr>"
    by (auto simp: processPDFTransactionData_def split: prod.splits sum.splits)
  then show ?thesis by blast
qed

lemma processPDFTransactionData_keeps:
  assumes "processPDFTransactionData w d s = (r, s1)"
  shows "oldPDFUrl s1 = oldPDFUrl s \<and> updates s1 = updates s \<and> collection s1 = collection s
         \<and> slept s1 = slept s \<and> conversions s1 \<le> conversions s + 1"
  using processPDFTransactionData_state[OF assms] by auto

lemma cycle_same_url:
  assumes "getLatestTransaction w (currentYear w) = Inr (Some d)"
    and "oldPDFUrl s = Some (pdfUrl d)"
  shows "checkAndUpdateLatestTransactionData w s =
           (Inr (), s\<lparr>updates := updates s @ [finishedUpdate]\<rparr>)"
  using assms by (simp add: checkAndUpdateLatestTransactionData_def)

lemma cycle_success_stores_url:
  assumes "getLatestTransaction w (currentYear w) = Inr (Some d)"
    and "checkAndUpdateLatestTransactionData w s = (Inr (), s1)"
  shows "oldPDFUrl s1 = Some (pdfUrl d)"
proof (cases "oldPDFUrl s = Some (pdfUrl d)")
  case True
  with assms cycle_same_url[OF assms(1) True] show ?thesis by auto
next
  case False
  obtain r s' where p: "processPDFTransactionData w d s = (r, s')"
    by (cases "processPDFTransactionData w d s")
  show ?thesis
  proof (cases r)
    case None
    with cycle_processing_failed[OF assms(1) False] p assms(2) show ?thesis by simp
  next
    case (Some v)
    with cycle_processing_accepted[OF assms(1) False] p assms(2) show ?thesis by auto
  qed
qed

lemma cycle_failure_keeps_url:
  assumes "checkAndUpdateLatestTransactionData w s = (Inl e, s1)"
  shows "oldPDFUrl s1 = oldPDFUrl s"
proof (cases "getLatestTransaction w (currentYear w)")
  case (Inl e')
  with assms show ?thesis by (simp add: checkAndUpdateLatestTransactionData_def)
next
  case (Inr latest)
  show ?thesis
  proof (cases latest)
    case None
    with Inr assms show ?thesis by (simp add: checkAndUpdateLatestTransactionData_def)
  next
    case (Some d)
    show ?thesis
    proof (cases "oldPDFUrl s = Some (pdfUrl d)")
      case True
      with cycle_same_url[of w d s] Inr Some assms show ?thesis by simp
    next
      case False
      obtain r s' where p: "processPDFTransactionData w d s = (r, s')"
        by (cases "processPDFTransactionData w d s")
      show ?thesis
      proof (cases r)
        case None
        with cycle_processing_failed[of w d s s'] Inr Some False p assms
          processPDFTransactionData_keeps[OF p]
        show ?thesis by auto
      next
        case (Some v)
        with cycle_processing_accepted[of w d s v s'] Inr \<open>latest = Some d\<close> False p assms
        show ?thesis by simp
      qed
    qed
  qed
qed

lemma example_latest:
  "getLatestTransaction (exampleWorld reply pageAnswer) 2024 = Inr (Some exampleFiling)"
  by (simp add: getLatestTransaction_def getTransactions_def fetchPolititianTransactions_def
      exampleWorld_def pageAnswer_def exampleRow_def rowToFiling_def pdfNumber_def isDigit_def
      exampleFiling_def sortByIdDescending_def sortWith_def trim_def isSpace_def Let_def
      suffix_to_prefix)

lemma failingWorld_fails: "isl (fst (convertPDFToJSON failingWorld p s))"
  by (simp add: convertPDFToJSON_def failingWorld_def exampleWorld_def Let_def)

lemma failingWorld_process:
  "processPDFTransactionData failingWorld exampleFiling initialState =
     (None, initialState\<lparr>path := Some examplePath, conversions := 1\<rparr>)"
  by (simp add: processPDFTransactionData_def downloadPDF_def convertPDFToJSON_def
      failingWorld_def exampleWorld_def exampleFiling_def initialState_def examplePath_def Let_def)

lemma acceptingWorld_process:
  "processPDFTransactionData acceptingWorld exampleFiling initialState =
     (Some (exampleData ''John Smith'' ''TX01''),
      initialState\<lparr>path := Some examplePath, conversions := 1\<rparr>)"
  by code_simp

text \<open>
  Claim C1, as amended. When every attempt fails, \<open>retryProcessPDFData\<close> makes exactly five
  attempts, sleeps 0, 3, 7 and 30 minutes after the first four failures (the last delay of
  the schedule, 8 hours, is never slept) and returns \<open>null\<close>; and a cycle whose processing
  returns \<open>null\<close> gives the callback exactly one \<open>error\<close> update and throws.
\<close>

theorem retry_exhausted_and_cycle_error:
  assumes "\<And>s'. isl (fst (convertPDFToJSON w p s'))"
    and "getLatestTransaction w (currentYear w) = Inr (Some d)"
    and "oldPDFUrl s \<noteq> Some (pdfUrl d)"
    and "processPDFTransactionData w d s = (None, s1)"
  shows "retryProcessPDFData w p s0 =
           (None, s0\<lparr>conversions := conversions s0 + 5,
                      slept := slept s0 @ [0, 180000, 420000, 1800000]\<rparr>) \<and>
         checkAndUpdateLatestTransactionData w s =
           (Inl (Error ''After multiple attempts, could not process filing data.''),
            s1\<lparr>updates := updates s1 @ [errorUpdate]\<rparr>)"
  using retry_all_fail[of w p s0, OF assms(1)] cycle_processing_failed[OF assms(2,3,4)]
  by simp

theorem retry_exhausted_and_cycle_error_witness:
  "retryProcessPDFData failingWorld examplePath initialState =
     (None, initialState\<lparr>conversions := 5, slept := [0, 180000, 420000, 1800000]\<rparr>) \<and>
   checkAndUpdateLatestTransactionData failingWorld initialState =
     (Inl (Error ''After multiple attempts, could not process filing data.''),
      initialState\<lparr>path := Some examplePath, conversions := 1, updates := [errorUpdate]\<rparr>)"
proof -
  have 1: "getLatestTransaction failingWorld (currentYear failingWorld) = Inr (Some exampleFiling)"
    using example_latest[of "\<lambda>n p. Inl (Error ''OpenAI request timed out'')"]
    by (simp add: failingWorld_def) (simp add: exampleWorld_def)
  have 2: "oldPDFUrl initialState \<noteq> Some (pdfUrl exampleFiling)"
    by (simp add: initialState_def)
  from retry_exhausted_and_cycle_error[of failingWorld examplePath exampleFiling initialState _
      initialState, OF failingWorld_fails 1 2 failingWorld_process]
  show ?thesis by (simp add: initialState_def)
qed

theorem cycle_makes_one_attempt_counterexample:
  "conversions (snd (checkAndUpdateLatestTransactionData failingWorld initialState)) = 1 \<and>
   slept (snd (checkAndUpdateLatestTransactionData failingWorld initialState)) = [] \<and>
   slept (snd (retryProcessPDFData failingWorld examplePath initialState))
     = [0, 180000, 420000, 1800000] \<and>
   slept (snd (retryProcessPDFData failingWorld examplePath initialState)) \<noteq> retryDelays"
proof -
  have 1: "getLatestTransaction failingWorld (currentYear failingWorld) = Inr (Some exampleFiling)"
    using example_latest[of "\<lambda>n p. Inl (Error ''OpenAI request timed out'')"]
    by (simp add: failingWorld_def) (simp add: exampleWorld_def)
  have 2: "oldPDFUrl initialState \<noteq> Some (pdfUrl exampleFiling)"
    by (simp add: initialState_def)
  have "checkAndUpdateLatestTransactionData failingWorld initialState =
     (Inl (Error ''After multiple attempts, could not process filing data.''),
      initialState\<lparr>path := Some examplePath, conversions := 1, updates := [errorUpdate]\<rparr>)"
    using cycle_processing_failed[OF 1 2 failingWorld_process] by (simp add: initialState_def)
  moreover have "retryProcessPDFData failingWorld examplePath initialState =
     (None, initialState\<lparr>conversions := 5, slept := [0, 180000, 420000, 1800000]\<rparr>)"
    using retry_all_fail[of failingWorld examplePath initialState, OF failingWorld_fails]
    by (simp add: initialState_def)
  ultimately show ?thesis
    by (simp add: initialState_def retryDelays_def)
qed

text \<open>
  Claim C2. In a cycle whose extraction is accepted the callback gets the \<open>alert\<close> update
  and \<open>oldPDFUrl\<close> becomes the address of the new filing, and the collection of the
  database is what it was: the cycle stores nothing.
\<close>

theorem accepted_cycle_stores_nothing:
  assumes "getLatestTransaction w (currentYear w) = Inr (Some d)"
    and "oldPDFUrl s \<noteq> Some (pdfUrl d)"
    and "processPDFTransactionData w d s = (Some v, s1)"
  shows "checkAndUpdateLatestTransactionData w s =
           (Inr (), s1\<lparr>updates := updates s1 @ [alertUpdate (pdfUrl d) v],
                       oldPDFUrl := Some (pdfUrl d)\<rparr>) \<and>
         collection (snd (checkAndUpdateLatestTransactionData w s)) = collection s"
  using cycle_processing_accepted[OF assms] processPDFTransactionData_keeps[OF assms(3)]
  by simp

theorem accepted_cycle_stores_nothing_witness:
  "checkAndUpdateLatestTransactionData acceptingWorld initialState =
     (Inr (),
      initialState\<lparr>path := Some examplePath, conversions := 1,
        updates := [alertUpdate (pdfUrl exampleFiling) (exampleData ''John Smith'' ''TX01'')],
        oldPDFUrl := Some (pdfUrl exampleFiling)\<rparr>) \<and>
   collection (snd (checkAndUpdateLatestTransactionData acceptingWorld initialState)) = []"
proof -
  have 1: "getLatestTransaction acceptingWorld (currentYear acceptingWorld)
             = Inr (Some exampleFiling)"
    using example_latest[of "\<lambda>n p. Inr exampleReply"]
    by (simp add: acceptingWorld_def) (simp add: exampleWorld_def)
  have 2: "oldPDFUrl initialState \<noteq> Some (pdfUrl exampleFiling)"
    by (simp add: initialState_def)
  from accepted_cycle_stores_nothing[OF 1 2 acceptingWorld_process]
  show ?thesis by (simp add: initialState_def)
qed

text \<open>
  Claim C3. When the first filing the Source Fetcher returns has the address stored in
  \<open>oldPDFUrl\<close>, as after a cycle that processed the same filing, the cycle gives the
  callback the \<open>finished checking\<close> update and returns: no extraction is attempted, and
  nothing else of the state changes.
\<close>

theorem same_filing_is_not_extracted_again:
  assumes "getLatestTransaction w (currentYear w) = Inr (Some d)"
    and "oldPDFUrl s = Some (pdfUrl d)"
  shows "checkAndUpdateLatestTransactionData w s =
           (Inr (), s\<lparr>updates := updates s @ [finishedUpdate]\<rparr>) \<and>
         conversions (snd (checkAndUpdateLatestTransactionData w s)) = conversions s \<and>
         status finishedUpdate = ''finished checking''"
  using cycle_same_url[OF assms] by (simp add: finishedUpdate_def)

theorem same_filing_is_not_extracted_again_witness:
  "conversions (snd (checkAndUpdateLatestTransactionData acceptingWorld initialState)) = 1 \<and>
   checkAndUpdateLatestTransactionData acceptingWorld
       (snd (checkAndUpdateLatestTransactionData acceptingWorld initialState)) =
     (Inr (),
      initialState\<lparr>path := Some examplePath, conversions := 1,
        updates := [alertUpdate (pdfUrl exampleFiling) (exampleData ''John Smith'' ''TX01''),
                    finishedUpdate],
        oldPDFUrl := Some (pdfUrl exampleFiling)\<rparr>)"
proof -
  have 1: "getLatestTransaction acceptingWorld (currentYear acceptingWorld)
             = Inr (Some exampleFiling)"
    using example_latest[of "\<lambda>n p. Inr exampleReply"]
    by (simp add: acceptingWorld_def) (simp add: exampleWorld_def)
  have 2: "oldPDFUrl initialState \<noteq> Some (pdfUrl exampleFiling)"
    by (simp add: initialState_def)
  have first: "checkAndUpdateLatestTransactionData acceptingWorld initialState =
     (Inr (),
      initialState\<lparr>path := Some examplePath, conversions := 1,
        updates := [alertUpdate (pdfUrl exampleFiling) (exampleData ''John Smith'' ''TX01'')],
        oldPDFUrl := Some (pdfUrl exampleFiling)\<rparr>)"
    using cycle_processing_accepted[OF 1 2 acceptingWorld_process]
    by (simp add: initialState_def)
  have 3: "oldPDFUrl (snd (checkAndUpdateLatestTransactionData acceptingWorld initialState))
             = Some (pdfUrl exampleFiling)"
    by (simp add: first)
  from same_filing_is_not_extracted_again[OF 1 3] first
  show ?thesis by (simp add: initialState_def)
qed

lemma two_cycles_same_filing:
  assumes "getLatestTransaction w1 (currentYear w1) = Inr (Some d1)"
    and "checkAndUpdateLatestTransactionData w1 s0 = (Inr (), s1)"
    and "getLatestTransaction w2 (currentYear w2) = Inr (Some d2)"
    and "pdfUrl d2 = pdfUrl d1"
  shows "checkAndUpdateLatestTransactionData w2 s1 =
           (Inr (), s1\<lparr>updates := updates s1 @ [finishedUpdate]\<rparr>)"
  using cycle_same_url[OF assms(3)] cycle_success_stores_url[OF assms(1,2)] assms(4) by simp

lemma isJSON_never: "isJSON jp obj = False"
  by (simp add: isJSON_def typeofText_def)

lemma findSub_None_longer:
  "findSub a s = None \<Longrightarrow> prefix a b \<Longrightarrow> findSub b s = None"
proof (induction s)
  case Nil
  then show ?case by (auto split: if_splits)
next
  case (Cons c cs)
  from Cons.prems(1) have np: "\<not> prefix a (c # cs)" and rest: "findSub a cs = None"
    by (auto split: if_splits option.splits)
  from np Cons.prems(2) have "\<not> prefix b (c # cs)"
    using prefix_order.trans by blast
  with Cons.IH[OF rest Cons.prems(2)] show ?case by simp
qed

lemma no_fence_no_block:
  assumes "findSub fence text = None"
  shows "extractStringBetweenBackticks jp text = None"
proof -
  have "findSub (fence @ ''json'') text = None"
    using findSub_None_longer[OF assms, of "fence @ ''json''"] by simp
  then have "jsonBlock text = None" by (simp add: jsonBlock_def)
  moreover have "fencedBlocks text = []" using assms by simp
  ultimately show ?thesis by (simp add: extractStringBetweenBackticks_def)
qed

text \<open>
  Claim C5. \<open>isJSON\<close> answers \<open>false\<close> for every reply, so every reply goes through
  \<open>extractStringBetweenBackticks\<close>; when that finds no block and returns \<open>false\<close>,
  \<open>JSON.parse(false)\<close> parses the text \<open>false\<close> and does not throw, and the conversion
  returns the boolean \<open>false\<close> where the claim has it raise a failure.
\<close>

theorem reply_without_json_is_returned_as_false:
  assumes "jsonParse w ''false'' = Some (JBool False)"
    and "extractStringBetweenBackticks (jsonParse w) reply = None"
    and "assistantReply w (conversions s) p = Inr reply"
  shows "convertPDFToJSON w p s = (Inr (JBool False), s\<lparr>conversions := conversions s + 1\<rparr>)"
  using assms by (simp add: convertPDFToJSON_def replyToData_def isJSON_never)

theorem reply_without_json_is_returned_as_false_witness:
  "exampleParse ''I could not read the document.'' = None \<and>
   convertPDFToJSON proseWorld examplePath initialState =
     (Inr (JBool False), initialState\<lparr>conversions := 1\<rparr>)"
proof -
  have 1: "jsonParse proseWorld ''false'' = Some (JBool False)"
    by (simp add: proseWorld_def exampleWorld_def exampleParse_def)
  have "findSub fence ''I could not read the document.'' = None"
    by (simp add: fence_def)
  then have 2: "extractStringBetweenBackticks (jsonParse proseWorld)
                  ''I could not read the document.'' = None"
    by (rule no_fence_no_block)
  have 3: "assistantReply proseWorld (conversions initialState) examplePath
             = Inr ''I could not read the document.''"
    by (simp add: proseWorld_def exampleWorld_def)
  have 4: "exampleParse ''I could not read the document.'' = None"
    by (simp add: exampleParse_def exampleJson_def)
  from reply_without_json_is_returned_as_false[OF 1 2 3] 4
  show ?thesis by (simp add: initialState_def)
qed

section \<open>Properties of the Event Broadcaster\<close>

lemma map_of_middle:
  "h \<notin> fst ` set pre \<Longrightarrow> map_of (pre @ (h, r) # post) h = Some r"
  by (induction pre) auto

lemma filter_other_keys:
  "h \<notin> fst ` set xs \<Longrightarrow> filter (\<lambda>(k, r). k \<noteq> h) xs = xs"
  by (induction xs) auto

lemma map_other_keys:
  "h \<notin> fst ` set xs \<Longrightarrow> map (\<lambda>(k, r0). if k = h then (k, r') else (k, r0)) xs = xs"
  by (induction xs) auto

lemma clientsDelete_middle:
  "h \<notin> fst ` set pre \<Longrightarrow> h \<notin> fst ` set post \<Longrightarrow>
     clientsDelete h (pre @ (h, r) # post) = pre @ post"
  by (simp add: clientsDelete_def filter_other_keys)

lemma clientsPut_middle:
  "h \<notin> fst ` set pre \<Longrightarrow> h \<notin> fst ` set post \<Longrightarrow>
     clientsPut h r' (pre @ (h, r) # post) = pre @ (h, r') # post"
  by (simp add: clientsPut_def map_other_keys)

lemma two_writes:
  "(case writeChunk r a of
      Inl e \<Rightarrow> None
    | Inr r1 \<Rightarrow> (case writeChunk r1 b of Inl e \<Rightarrow> None | Inr r2 \<Rightarrow> Some r2)) =
   (if takesBoth r
    then Some (r\<lparr>remainingWrites := map_option (\<lambda>n. n - 2) (remainingWrites r),
                 written := written r @ [a, b]\<rparr>)
    else None)"
proof (cases "remainingWrites r")
  case None
  then show ?thesis by (simp add: writeChunk_def takesBoth_def)
next
  case (Some n)
  show ?thesis
  proof (cases n)
    case 0
    with Some show ?thesis by (simp add: writeChunk_def takesBoth_def)
  next
    case (Suc m)
    with Some show ?thesis
      by (cases m) (simp_all add: writeChunk_def takesBoth_def)
  qed
qed

lemma sendToClient_found:
  assumes "map_of cs h = Some r"
  shows "sendToClient payload eventType h cs =
           Inr (case (case writeChunk r (''event: '' @ eventType @ [CHR 0x0A]) of
                        Inl e \<Rightarrow> None
                      | Inr r1 \<Rightarrow>
                          (case writeChunk r1 (''data: '' @ payload @ [CHR 0x0A, CHR 0x0A]) of
                             Inl e \<Rightarrow> None
                           | Inr r2 \<Rightarrow> Some r2)) of
                  None \<Rightarrow> clientsDelete h cs
                | Some r2 \<Rightarrow> clientsPut h r2 cs)"
  unfolding sendToClient_def assms by (simp split: sum.splits)

lemma sendToClient_middle:
  assumes "h \<notin> fst ` set pre" and "h \<notin> fst ` set post"
  shows "sendToClient payload eventType h (pre @ (h, r) # post) =
           Inr (if takesBoth r then pre @ (h, afterBoth payload eventType r) # post
                else pre @ post)"
proof -
  have "sendToClient payload eventType h (pre @ (h, r) # post) =
          Inr (case (if takesBoth r then Some (afterBoth payload eventType r) else None) of
                 None \<Rightarrow> clientsDelete h (pre @ (h, r) # post)
               | Some r2 \<Rightarrow> clientsPut h r2 (pre @ (h, r) # post))"
    unfolding sendToClient_found[OF map_of_middle[OF assms(1)]] two_writes afterBoth_def ..
  then show ?thesis
    using clientsDelete_middle[OF assms, of r]
      clientsPut_middle[OF assms, of "afterBoth payload eventType r" r]
    by (cases "takesBoth r") simp_all
qed

lemma forEach_sendToClient:
  assumes "distinct (map fst (pre @ rest))"
  shows "forEach (sendToClient payload eventType) (map fst rest) (pre @ rest) =
           Inr (pre @ map (\<lambda>(h, r). (h, afterBoth payload eventType r))
                          (filter (\<lambda>(h, r). takesBoth r) rest))"
  using assms
proof (induction rest arbitrary: pre)
  case Nil
  then show ?case by simp
next
  case (Cons c rest)
  obtain h r where c: "c = (h, r)" by (cases c)
  from Cons.prems c have h1: "h \<notin> fst ` set pre" and h2: "h \<notin> fst ` set rest"
    by auto
  show ?case
  proof (cases "takesBoth r")
    case True
    from Cons.prems c have "distinct (map fst ((pre @ [(h, afterBoth payload eventType r)]) @ rest))"
      by auto
    from Cons.IH[OF this] True c h1 h2 show ?thesis
      by (simp add: sendToClient_middle)
  next
    case False
    from Cons.prems c have "distinct (map fst (pre @ rest))" by auto
    from Cons.IH[OF this] False c h1 h2 show ?thesis
      by (simp add: sendToClient_middle)
  qed
qed

text \<open>
  Claim C9. A broadcast never throws to its caller. It leaves in the registry exactly the
  subscribers whose response took both writes, in their order, each with the two chunks
  of the event written; a subscriber whose write throws is removed, and no other one is.
\<close>

theorem broadcast_isolates_failed_subscriber:
  assumes "distinct (map fst cs)"
  shows "sendSSEUpdate payload eventType cs =
           Inr (map (\<lambda>(h, r). (h, afterBoth payload eventType r))
                    (filter (\<lambda>(h, r). takesBoth r) cs))"
  using forEach_sendToClient[of "[]" cs payload eventType] assms
  by (simp add: sendSSEUpdate_def)

theorem broadcast_isolates_failed_subscriber_witness:
  "sendSSEUpdate ''{}'' ''message'' [(1, openResponse), (2, closedResponse), (3, openResponse)] =
     Inr [(1, \<lparr>remainingWrites = None,
               written = [''event: message'' @ [CHR 0x0A], ''data: {}'' @ [CHR 0x0A, CHR 0x0A]]\<rparr>),
          (3, \<lparr>remainingWrites = None,
               written = [''event: message'' @ [CHR 0x0A], ''data: {}'' @ [CHR 0x0A, CHR 0x0A]]\<rparr>)]"
proof -
  have "distinct (map fst [(1::nat, openResponse), (2, closedResponse), (3, openResponse)])"
    by simp
  from broadcast_isolates_failed_subscriber[OF this, of "''{}''" "''message''"]
  show ?thesis
    by (simp add: takesBoth_def afterBoth_def openResponse_def closedResponse_def)
qed

section \<open>Properties of the Source Fetcher\<close>

declare bitLength.simps [simp del]




















lemma mset_insertSorted: "mset (insertSorted cmp x ys) = add_mset x (mset ys)"
  by (induction ys) auto

lemma mset_sortWith: "mset (sortWith cmp xs) = mset xs"
  by (induction xs) (auto simp: sortWith_def mset_insertSorted)






















section \<open>Normalising a name written as a list of tokens\<close>

lemma isSpace_space: "isSpace (CHR '' '')"
  by (simp add: isSpace_def)

lemma notUpper_toLowerChar: "\<not> isUpperChar (toLowerChar c)"
  by (auto simp add: toLowerChar_def isUpperChar_def Let_def)

lemma toLowerChar_idem: "toLowerChar (toLowerChar c) = toLowerChar c"
  using notUpper_toLowerChar[of c] by (simp add: toLowerChar_def)

lemma char_eq_code: "(c = d) = ((of_char c :: nat) = of_char d)"
  by simp

lemma isSpace_code:
  "isSpace c = ((of_char c :: nat) = 9 \<or> (of_char c :: nat) = 10 \<or> (of_char c :: nat) = 11 \<or>
     (of_char c :: nat) = 12 \<or> (of_char c :: nat) = 13 \<or> (of_char c :: nat) = 32 \<or>
     (of_char c :: nat) = 160)"
  unfolding isSpace_def
  by (simp add: char_eq_code[of c])

lemma isSpace_toLowerChar: "isSpace (toLowerChar c) = isSpace c"
proof (cases "isUpperChar c")
  case True
  then have "\<not> isSpace c" by (auto simp: isUpperChar_def isSpace_code Let_def)
  moreover from True have "\<not> isSpace (toLowerChar c)"
    by (auto simp: isUpperChar_def isSpace_code toLowerChar_def Let_def)
  ultimately show ?thesis by simp
next
  case False
  then show ?thesis by (simp add: toLowerChar_def)
qed

lemma toLowerChar_space: "toLowerChar (CHR '' '') = CHR '' ''"
  by (simp add: toLowerChar_def isUpperChar_def)

lemma map_join: "map f (join sep ts) = join (map f sep) (map (map f) ts)"
  by (induction sep ts rule: join.induct) simp_all

lemma filter_join: "filter P (join sep ts) = join (filter P sep) (map (filter P) ts)"
  by (induction sep ts rule: join.induct) simp_all

lemma toLowerCase_join: "toLowerCase (join '' '' ts) = join '' '' (map toLowerCase ts)"
  unfolding toLowerCase_def by (simp add: map_join toLowerChar_space)

lemma removePunctuation_join:
  "removePunctuation (join '' '' ts) = join '' '' (map removePunctuation ts)"
  unfolding removePunctuation_def by (simp add: filter_join)

lemma plainToken_toLowerCase: "plainToken t \<Longrightarrow> plainToken (toLowerCase t)"
  by (simp add: plainToken_def toLowerCase_def list_all_iff isSpace_toLowerChar)

lemma firstWord_join:
  assumes "list_all (\<lambda>c. \<not> isSpace c) p"
  shows "takeWhile (\<lambda>c. \<not> isSpace c) (join '' '' (p # ps)) = p"
proof (cases ps)
  case Nil
  with assms show ?thesis by (simp add: list_all_iff)
next
  case (Cons q qs)
  with assms show ?thesis
    by (simp add: list_all_iff takeWhile_tail isSpace_space)
qed

lemma matchTitle_firstWord:
  assumes "matchTitle t s = Some r" and "list_all (\<lambda>c. \<not> isSpace c) t"
  shows "takeWhile (\<lambda>c. \<not> isSpace c) s = t \<or> takeWhile (\<lambda>c. \<not> isSpace c) s = t @ ''.''"
proof -
  from assms(1) obtain s' where s: "s = t @ s'" and tail: "matchTitleTail s' = Some r"
    by (auto simp: matchTitle_def prefix_def split: if_splits)
  from assms(2) have tw: "takeWhile (\<lambda>c. \<not> isSpace c) (t @ s') = t @ takeWhile (\<lambda>c. \<not> isSpace c) s'"
    by (simp add: list_all_iff takeWhile_append2)
  from tail have "(\<exists>c cs. s' = c # cs \<and> isSpace c) \<or> (\<exists>c cs. s' = CHR ''.'' # c # cs \<and> isSpace c)"
    by (auto simp: matchTitleTail_def Let_def split: list.splits if_splits)
  then show ?thesis
  proof
    assume "\<exists>c cs. s' = c # cs \<and> isSpace c"
    with tw s show ?thesis by auto
  next
    assume "\<exists>c cs. s' = CHR ''.'' # c # cs \<and> isSpace c"
    then obtain c cs where "s' = CHR ''.'' # c # cs" and "isSpace c" by blast
    moreover have "\<not> isSpace (CHR ''.'')" by (simp add: isSpace_def)
    ultimately show ?thesis using tw s by simp
  qed
qed

lemma isTitleWord_plain:
  assumes "isTitleWord t"
  shows "list_all (\<lambda>c. \<not> isSpace c) t \<and> removePunctuation t = t
         \<and> removePunctuation (t @ ''.'') = t \<and> t \<noteq> []"
  using assms by (auto simp: isTitleWord_def isSpace_def removePunctuation_def)

lemma matchTitle_join_None:
  assumes "isTitleWord t"
    and "list_all (\<lambda>c. \<not> isSpace c) u"
    and "\<not> isTitleWord (removePunctuation u)"
  shows "matchTitle t (join '' '' (u # us)) = None"
proof (rule ccontr)
  assume "matchTitle t (join '' '' (u # us)) \<noteq> None"
  then obtain r where "matchTitle t (join '' '' (u # us)) = Some r" by auto
  from matchTitle_firstWord[OF this] isTitleWord_plain[OF assms(1)] firstWord_join[OF assms(2)]
  have "u = t \<or> u = t @ ''.''" by simp
  with isTitleWord_plain[OF assms(1)] have "removePunctuation u = t" by auto
  with assms(1,3) show False by simp
qed

lemma stripLeadingTitle_join:
  assumes "isTitleWord t"
    and "\<forall>u\<in>set us. plainToken u \<and> \<not> isTitleWord (removePunctuation u)"
  shows "stripLeadingTitle t (join '' '' us) = join '' '' us"
proof (cases us)
  case Nil
  with isTitleWord_plain[OF assms(1)] show ?thesis
    by (simp add: stripLeadingTitle_def matchTitle_def)
next
  case (Cons u rest)
  with assms(2) have "list_all (\<lambda>c. \<not> isSpace c) u" "\<not> isTitleWord (removePunctuation u)"
    by (simp_all add: plainToken_def)
  from matchTitle_join_None[OF assms(1) this] Cons show ?thesis
    by (simp add: stripLeadingTitle_def)
qed

lemma replaceInnerTitle_word:
  assumes "list_all (\<lambda>c. \<not> isSpace c) p"
  shows "replaceInnerTitle t (p @ s) = p @ replaceInnerTitle t s"
  using assms by (induction p) (simp_all add: matchInnerTitle_def)

lemma dropWhile_join:
  assumes "plainToken u"
  shows "dropWhile isSpace (join '' '' (u # us)) = join '' '' (u # us)"
proof -
  from assms obtain c cs where u: "u = c # cs" and "\<not> isSpace c"
    by (cases u) (auto simp: plainToken_def)
  then show ?thesis by (cases us) simp_all
qed

lemma replaceInnerTitle_join:
  assumes "isTitleWord t"
    and "\<forall>u\<in>set us. plainToken u \<and> \<not> isTitleWord (removePunctuation u)"
  shows "replaceInnerTitle t (join '' '' us) = join '' '' us"
  using assms(2)
proof (induction "'' ''" us rule: join.induct)
  case 1
  then show ?case by simp
next
  case (2 p)
  then have "list_all (\<lambda>c. \<not> isSpace c) p" by (simp add: plainToken_def)
  from replaceInnerTitle_word[OF this, of t "[]"] show ?case by simp
next
  case (3 p q ps)
  then have p: "list_all (\<lambda>c. \<not> isSpace c) p" and q: "plainToken q"
    and qt: "\<not> isTitleWord (removePunctuation q)"
    by (simp_all add: plainToken_def)
  from q have q': "list_all (\<lambda>c. \<not> isSpace c) q" by (simp add: plainToken_def)
  have ih: "replaceInnerTitle t (join '' '' (q # ps)) = join '' '' (q # ps)"
    using 3 by simp
  have "matchInnerTitle t (CHR '' '' # join '' '' (q # ps)) = None"
    using matchTitle_join_None[OF assms(1) q' qt, of ps] dropWhile_join[OF q, of ps]
    by (simp add: matchInnerTitle_def isSpace_space)
  then have "replaceInnerTitle t (CHR '' '' # join '' '' (q # ps)) = CHR '' '' # join '' '' (q # ps)"
    using ih by simp
  with replaceInnerTitle_word[OF p, of t "CHR '' '' # join '' '' (q # ps)"]
  show ?case by simp
qed

lemma splitSpaces_not_Nil: "splitSpaces s \<noteq> []"
  by (induction s rule: splitSpaces.induct) (auto split: list.splits)

lemma splitSpaces_word:
  assumes "list_all (\<lambda>c. \<not> isSpace c) p"
  shows "splitSpaces (p @ s) = (p @ hd (splitSpaces s)) # tl (splitSpaces s)"
  using assms
proof (induction p)
  case Nil
  then show ?case using splitSpaces_not_Nil[of s] by simp
next
  case (Cons c p)
  then show ?case by simp
qed

lemma splitSpaces_dropWhile:
  "filter (\<lambda>part. length part > 0) (splitSpaces (dropWhile isSpace s)) =
   filter (\<lambda>part. length part > 0) (splitSpaces s)"
  by (cases s) simp_all

lemma splitSpaces_join:
  assumes "\<forall>v\<in>set vs. list_all (\<lambda>c. \<not> isSpace c) v"
  shows "filter (\<lambda>part. length part > 0) (splitSpaces (join '' '' vs)) =
         filter (\<lambda>part. length part > 0) vs"
  using assms
proof (induction "'' ''" vs rule: join.induct)
  case 1
  then show ?case by simp
next
  case (2 p)
  then have "list_all (\<lambda>c. \<not> isSpace c) p" by simp
  from splitSpaces_word[OF this, of "[]"] show ?case by simp
next
  case (3 p q ps)
  then have p: "list_all (\<lambda>c. \<not> isSpace c) p" by simp
  have ih: "filter (\<lambda>part. length part > 0) (splitSpaces (join '' '' (q # ps))) =
            filter (\<lambda>part. length part > 0) (q # ps)"
    using 3 by simp
  have "splitSpaces (p @ CHR '' '' # join '' '' (q # ps)) =
          p # splitSpaces (dropWhile isSpace (join '' '' (q # ps)))"
    using splitSpaces_word[OF p, of "CHR '' '' # join '' '' (q # ps)"]
    by (simp add: isSpace_space)
  then have "filter (\<lambda>part. length part > 0) (splitSpaces (join '' '' (p # q # ps))) =
          filter (\<lambda>part. length part > 0) [p] @
          filter (\<lambda>part. length part > 0) (splitSpaces (dropWhile isSpace (join '' '' (q # ps))))"
    by simp
  also have "\<dots> = filter (\<lambda>part. length part > 0) [p] @ filter (\<lambda>part. length part > 0) (q # ps)"
    unfolding splitSpaces_dropWhile ih ..
  finally show ?case by simp
qed

lemma removePunctuation_no_space:
  "list_all (\<lambda>c. \<not> isSpace c) t \<Longrightarrow> list_all (\<lambda>c. \<not> isSpace c) (removePunctuation t)"
  by (simp add: removePunctuation_def list_all_iff)

text \<open>
  The parts of a name given as tokens joined by single spaces, when no token is a title:
  the tokens themselves, in lower case and without punctuation, filtered and sorted.
\<close>

lemma nameParts_join:
  assumes "\<forall>t\<in>set ts. plainToken t \<and> \<not> isTitleWord (removePunctuation (toLowerCase t))"
  shows "nameParts (join '' '' ts) =
           sort (filter (\<lambda>part. \<not> isSuffixPart part)
             (filter (\<lambda>part. length part > 0)
               (map (\<lambda>t. removePunctuation (toLowerCase t)) ts)))"
proof -
  let ?us = "map toLowerCase ts"
  have us: "\<forall>u\<in>set ?us. plainToken u \<and> \<not> isTitleWord (removePunctuation u)"
    using assms by (auto simp: plainToken_toLowerCase)
  have hon: "isTitleWord ''hon''" and dr: "isTitleWord ''dr''"
    and mrs: "isTitleWord ''mrs''" and mr: "isTitleWord ''mr''"
    by (simp_all add: isTitleWord_def)
  have 1: "toLowerCase (join '' '' ts) = join '' '' ?us" by (rule toLowerCase_join)
  have 2: "stripLeadingTitle ''hon'' (join '' '' ?us) = join '' '' ?us"
    by (rule stripLeadingTitle_join[OF hon us])
  have 3: "stripLeadingTitle ''dr'' (join '' '' ?us) = join '' '' ?us"
    by (rule stripLeadingTitle_join[OF dr us])
  have 4: "replaceInnerTitle ''mrs'' (join '' '' ?us) = join '' '' ?us"
    by (rule replaceInnerTitle_join[OF mrs us])
  have 5: "replaceInnerTitle ''mr'' (join '' '' ?us) = join '' '' ?us"
    by (rule replaceInnerTitle_join[OF mr us])
  have 6: "removePunctuation (join '' '' ?us) = join '' '' (map removePunctuation ?us)"
    by (rule removePunctuation_join)
  have "\<forall>v\<in>set (map removePunctuation ?us). list_all (\<lambda>c. \<not> isSpace c) v"
    using us by (auto simp: plainToken_def removePunctuation_no_space)
  from splitSpaces_join[OF this]
  have 7: "filter (\<lambda>part. length part > 0) (splitSpaces (join '' '' (map removePunctuation ?us))) =
           filter (\<lambda>part. length part > 0) (map removePunctuation ?us)" .
  show ?thesis
    unfolding nameParts_def 1 2 3 4 5 6 7 by (simp add: comp_def)
qed

section \<open>The parts of a normalised name\<close>

lemma splitSpaces_chars:
  "p \<in> set (splitSpaces s) \<Longrightarrow> c \<in> set p \<Longrightarrow> c \<in> set s \<and> \<not> isSpace c"
proof (induction s arbitrary: p rule: splitSpaces.induct)
  case 1
  then show ?case by simp
next
  case (2 d ds)
  show ?case
  proof (cases "isSpace d")
    case True
    with "2.prems" have "p \<in> set (splitSpaces (dropWhile isSpace ds))" by auto
    from "2.IH"(1)[OF True this "2.prems"(2)] show ?thesis
      by (auto dest: set_dropWhileD)
  next
    case False
    note nsd = False
    obtain q qs where sp: "splitSpaces ds = q # qs"
      using splitSpaces_not_Nil[of ds] by (cases "splitSpaces ds") auto
    with False "2.prems"(1) have "p = d # q \<or> p \<in> set qs" by simp
    then show ?thesis
    proof
      assume p: "p = d # q"
      show ?thesis
      proof (cases "c = d")
        case True
        with nsd show ?thesis by simp
      next
        case False
        with p "2.prems"(2) have "c \<in> set q" by simp
        moreover have "q \<in> set (splitSpaces ds)" using sp by simp
        ultimately show ?thesis using "2.IH"(2)[OF nsd] by simp
      qed
    next
      assume "p \<in> set qs"
      then have "p \<in> set (splitSpaces ds)" using sp by simp
      from "2.IH"(2)[OF nsd this "2.prems"(2)] show ?thesis by simp
    qed
  qed
qed

lemma matchTitle_set: "matchTitle t s = Some r \<Longrightarrow> set r \<subseteq> set s"
proof -
  assume a: "matchTitle t s = Some r"
  then have tail: "matchTitleTail (drop (length t) s) = Some r"
    by (simp add: matchTitle_def split: if_splits)
  have "set r \<subseteq> set (drop (length t) s)"
    using tail
    by (auto simp: matchTitleTail_def Let_def split: list.splits if_splits dest: set_dropWhileD)
  then show ?thesis using set_drop_subset[of "length t" s] by blast
qed

lemma stripLeadingTitle_set: "set (stripLeadingTitle t s) \<subseteq> set s"
  by (auto simp: stripLeadingTitle_def split: option.splits dest: matchTitle_set)

lemma matchInnerTitle_set: "matchInnerTitle t s = Some r \<Longrightarrow> set r \<subseteq> set s"
  by (cases s) (auto simp: matchInnerTitle_def split: if_splits dest!: matchTitle_set set_dropWhileD)

lemma replaceInnerTitle_set: "set (replaceInnerTitle t s) \<subseteq> insert (CHR '' '') (set s)"
proof (induction s)
  case Nil
  then show ?case by simp
next
  case (Cons c cs)
  show ?case
  proof (cases "matchInnerTitle t (c # cs)")
    case None
    with Cons show ?thesis by auto
  next
    case (Some r)
    with matchInnerTitle_set[OF Some] show ?thesis by auto
  qed
qed

lemma lowered_chars:
  assumes "c \<in> set (replaceInnerTitle ''mr'' (replaceInnerTitle ''mrs''
              (stripLeadingTitle ''dr'' (stripLeadingTitle ''hon'' (toLowerCase x)))))"
  shows "toLowerChar c = c"
proof -
  from assms replaceInnerTitle_set replaceInnerTitle_set stripLeadingTitle_set
    stripLeadingTitle_set
  have "c = CHR '' '' \<or> c \<in> set (toLowerCase x)" by blast
  then show ?thesis
    by (auto simp: toLowerChar_space toLowerCase_def toLowerChar_idem)
qed

lemma nameParts_part:
  assumes "u \<in> set (nameParts x)"
  shows "plainToken u \<and> toLowerCase u = u \<and> removePunctuation u = u \<and> \<not> isSuffixPart u"
proof -
  let ?s = "replaceInnerTitle ''mr'' (replaceInnerTitle ''mrs''
              (stripLeadingTitle ''dr'' (stripLeadingTitle ''hon'' (toLowerCase x))))"
  from assms have u: "u \<in> set (splitSpaces (removePunctuation ?s))" and ne: "u \<noteq> []"
    and ns: "\<not> isSuffixPart u"
    by (auto simp: nameParts_def)
  have chars: "\<forall>c\<in>set u. c \<in> set (removePunctuation ?s) \<and> \<not> isSpace c"
    using splitSpaces_chars[OF u] by blast
  then have "\<forall>c\<in>set u. toLowerChar c = c \<and> c \<noteq> CHR ''.'' \<and> c \<noteq> CHR '',''"
    using lowered_chars[of _ x] by (auto simp: removePunctuation_def)
  then have "toLowerCase u = u" and "removePunctuation u = u"
    by (simp_all add: toLowerCase_def removePunctuation_def map_idI filter_id_conv)
  with chars ne ns show ?thesis by (simp add: plainToken_def list_all_iff)
qed

lemma nameParts_sorted: "sort (nameParts x) = nameParts x"
  by (simp add: nameParts_def sort_key_id_if_sorted)

lemma normalizeName_fixed:
  assumes "\<forall>u\<in>set (nameParts x). \<not> isTitleWord u"
  shows "normalizeName (normalizeName x) = normalizeName x"
proof -
  let ?us = "nameParts x"
  have p: "\<forall>u\<in>set ?us. plainToken u \<and> toLowerCase u = u \<and> removePunctuation u = u
             \<and> \<not> isSuffixPart u"
    using nameParts_part by blast
  with assms have "\<forall>t\<in>set ?us. plainToken t \<and> \<not> isTitleWord (removePunctuation (toLowerCase t))"
    by simp
  from nameParts_join[OF this]
  have "nameParts (join '' '' ?us) =
          sort (filter (\<lambda>part. \<not> isSuffixPart part)
            (filter (\<lambda>part. length part > 0)
              (map (\<lambda>t. removePunctuation (toLowerCase t)) ?us)))" .
  also have "map (\<lambda>t. removePunctuation (toLowerCase t)) ?us = ?us"
    using p by (simp add: map_idI)
  also have "filter (\<lambda>part. length part > 0) ?us = ?us"
    using p by (simp add: filter_id_conv plainToken_def)
  also have "filter (\<lambda>part. \<not> isSuffixPart part) ?us = ?us"
    using p by (simp add: filter_id_conv)
  also have "sort ?us = ?us" by (rule nameParts_sorted)
  finally show ?thesis by (simp add: normalizeName_def)
qed

lemma normalizeName_permutation:
  assumes "\<forall>t\<in>set ts. plainToken t \<and> \<not> isTitleWord (removePunctuation (toLowerCase t))"
    and "mset ts' = mset ts"
  shows "normalizeName (join '' '' ts') = normalizeName (join '' '' ts)"
proof -
  from assms(2) have "set ts' = set ts" by (rule mset_eq_setD)
  with assms(1)
  have a': "\<forall>t\<in>set ts'. plainToken t \<and> \<not> isTitleWord (removePunctuation (toLowerCase t))"
    by simp
  let ?f = "\<lambda>zs. filter (\<lambda>part. \<not> isSuffixPart part)
             (filter (\<lambda>part. length part > 0)
               (map (\<lambda>t. removePunctuation (toLowerCase t)) zs))"
  from assms(2) have "mset (?f ts') = mset (?f ts)" by simp
  then have "sort (?f ts') = sort (?f ts)"
    by (metis properties_for_sort sorted_sort mset_sort)
  with nameParts_join[OF assms(1)] nameParts_join[OF a'] show ?thesis
    by (simp add: normalizeName_def)
qed

text \<open>
  Claim C8, as amended. Normalising twice gives what normalising once gives for every
  name whose normalised form has none of the parts \<open>hon\<close>, \<open>dr\<close>, \<open>mrs\<close>, \<open>mr\<close>; and two
  names made of the same tokens in two orders, joined by single spaces, have the same
  normalised form when no token is one of those titles (in any case, with or without
  periods and commas). \<open>John Smith\<close> and \<open>Smith John\<close> are such names.
\<close>

theorem normalizeName_idempotent_and_order_insensitive:
  "((\<forall>u\<in>set (nameParts x). \<not> isTitleWord u) \<longrightarrow>
      normalizeName (normalizeName x) = normalizeName x) \<and>
   ((\<forall>t\<in>set ts. plainToken t \<and> \<not> isTitleWord (removePunctuation (toLowerCase t))) \<and>
      mset ts' = mset ts \<longrightarrow>
      normalizeName (join '' '' ts') = normalizeName (join '' '' ts))"
  using normalizeName_fixed[of x] normalizeName_permutation[of ts ts'] by blast

theorem normalizeName_idempotent_and_order_insensitive_witness:
  "normalizeName ''John Smith'' = ''john smith'' \<and>
   normalizeName (normalizeName ''John Smith'') = normalizeName ''John Smith'' \<and>
   normalizeName ''Smith John'' = normalizeName ''John Smith''"
proof -
  have parts: "nameParts ''John Smith'' = [''john'', ''smith'']" by code_simp
  then have 1: "\<forall>u\<in>set (nameParts ''John Smith''). \<not> isTitleWord u"
    by (simp add: isTitleWord_def)
  have "removePunctuation (toLowerCase ''John'') = ''john''"
    and "removePunctuation (toLowerCase ''Smith'') = ''smith''"
    by code_simp+
  then have 2: "\<forall>t\<in>set [''John'', ''Smith''].
      plainToken t \<and> \<not> isTitleWord (removePunctuation (toLowerCase t))"
    by (simp add: plainToken_def isSpace_def isTitleWord_def)
  have 3: "mset [''Smith'', ''John''] = mset [''John'', ''Smith'']" by simp
  from normalizeName_idempotent_and_order_insensitive
         [of "''John Smith''" "[''John'', ''Smith'']" "[''Smith'', ''John'']"] 1 2 3
  have "normalizeName (normalizeName ''John Smith'') = normalizeName ''John Smith''"
    and "normalizeName (join '' '' [''Smith'', ''John'']) = normalizeName (join '' '' [''John'', ''Smith''])"
    by blast+
  then show ?thesis using parts by (simp add: normalizeName_def)
qed

theorem normalizeName_titles_counterexample:
  "normalizeName ''Smith, Hon. John'' = ''hon john smith'' \<and>
   normalizeName (normalizeName ''Smith, Hon. John'') = ''john smith'' \<and>
   normalizeName (normalizeName ''Smith, Hon. John'') \<noteq> normalizeName ''Smith, Hon. John'' \<and>
   normalizeName ''Dr Smith'' = ''smith'' \<and>
   normalizeName ''Smith Dr'' = ''dr smith'' \<and>
   normalizeName ''Dr Smith'' \<noteq> normalizeName ''Smith Dr''"
proof -
  have a: "normalizeName ''Smith, Hon. John'' = ''hon john smith''" by code_simp
  have b: "normalizeName ''hon john smith'' = ''john smith''" by code_simp
  have c: "normalizeName ''Dr Smith'' = ''smith''" by code_simp
  have d: "normalizeName ''Smith Dr'' = ''dr smith''" by code_simp
  show ?thesis unfolding a b c d by simp
qed

lemma roman_token_is_dropped:
  assumes "\<forall>t\<in>set (ts1 @ ts2). plainToken t \<and> \<not> isTitleWord (removePunctuation (toLowerCase t))"
    and "plainToken r" and "isRomanPart (removePunctuation (toLowerCase r))"
  shows "normalizeName (join '' '' (ts1 @ [r] @ ts2)) = normalizeName (join '' '' (ts1 @ ts2))"
proof -
  from assms(3) have nt: "\<not> isTitleWord (removePunctuation (toLowerCase r))"
    by (auto simp: isTitleWord_def isRomanPart_def)
  from assms(3) have suf: "isSuffixPart (removePunctuation (toLowerCase r))"
    by (simp add: isSuffixPart_def)
  from assms(1,2) nt
  have a: "\<forall>t\<in>set (ts1 @ [r] @ ts2).
             plainToken t \<and> \<not> isTitleWord (removePunctuation (toLowerCase t))"
    by auto
  show ?thesis
    unfolding normalizeName_def nameParts_join[OF a] nameParts_join[OF assms(1)]
    using suf by simp
qed

end
